theory Spec2Isabelle
  imports Complex_Main "HOL-Library.Multiset"
begin

section \<open>Data model (src/db/schema.ts, src/db/migrations.ts)\<close>

text \<open>
  Every timestamp column holds the output of \<^verbatim>\<open>new Date().toISOString()\<close>, a
  fixed-width UTC string whose string order is the order of the instants. A timestamp is
  modelled by its epoch milliseconds, and a \<^verbatim>\<open>YYYY-MM-DD\<close> date by its day number,
  so that the string comparisons of the queries become integer comparisons.
\<close>

type_synonym did = string
type_synonym timestamp = int
type_synonym isodate = int

definition msPerDay :: int where
  "msPerDay = 86400000"

text \<open>\<^verbatim>\<open>toISOString().split('T')[0]\<close>\<close>
definition isoDate :: "timestamp \<Rightarrow> isodate" where
  "isoDate t = t div msPerDay"

text \<open>\<^verbatim>\<open>`${today}T00:00:00.000Z`\<close> and \<^verbatim>\<open>`${today}T23:59:59.999Z`\<close>\<close>
definition dayStart :: "isodate \<Rightarrow> timestamp" where
  "dayStart d = d * msPerDay"

definition dayLastMs :: "isodate \<Rightarrow> timestamp" where
  "dayLastMs d = d * msPerDay + 86399999"

text \<open>
  \<^verbatim>\<open>d.setDate(d.getDate() - n)\<close> works on the local calendar of the host. The host's time
  zone is a parameter, in the form ECMAScript gives it: \<open>tza t True\<close> is the offset of local
  time from UTC, in milliseconds, at the UTC instant \<open>t\<close>, and \<open>tza t False\<close> the offset at
  the local wall-clock time \<open>t\<close>. \<^verbatim>\<open>setDate\<close> takes the local time of the instant, moves
  it \<open>n\<close> calendar days back with the time of day unchanged, and converts the result back
  to a UTC instant.
\<close>
definition daysAgo :: "(timestamp \<Rightarrow> bool \<Rightarrow> int) \<Rightarrow> int \<Rightarrow> timestamp \<Rightarrow> timestamp" where
  "daysAgo tza n t =
     (let localTime = t + tza t True;
          earlier = localTime - n * msPerDay
      in earlier - tza earlier False)"

record Post =
  uri :: string
  cid :: string
  indexedAt :: timestamp
  p_author_did :: did

record UserPreferences =
  up_user_did :: did
  daily_post_limit :: int
  default_mahoot_number :: int
  up_created_at :: timestamp
  up_updated_at :: timestamp

record FolloweeRelationship =
  fr_user_did :: did
  followee_did :: did
  mahoot_number :: int
  follow_uri :: string
  fr_created_at :: timestamp
  fr_updated_at :: timestamp

record PostStatistics =
  post_uri :: string
  ps_author_did :: did
  viewer_did :: did
  viewed_at :: timestamp

record DailyStats =
  ds_user_did :: did
  date :: isodate
  total_posts_viewed :: int
  followee_count :: int

text \<open>
  The tables, each a list of rows in insertion order. A \<^verbatim>\<open>select\<close> without
  \<^verbatim>\<open>orderBy\<close> returns the matching rows in that order.
\<close>

record Database =
  post :: "Post list"
  user_preferences :: "UserPreferences list"
  followee_relationships :: "FolloweeRelationship list"
  post_statistics :: "PostStatistics list"
  daily_stats :: "DailyStats list"

text \<open>
  The world a call runs in: the database, the system clock as the sequence of its
  successive readings, the random source as the sequence of its successive draws, and the
  time zone of the host.
\<close>

record World =
  db :: Database
  clock :: "nat \<Rightarrow> timestamp"
  clock_reads :: nat
  entropy :: "nat \<Rightarrow> nat"
  draws :: nat
  localTZA :: "timestamp \<Rightarrow> bool \<Rightarrow> int"

text \<open>\<^verbatim>\<open>new Date()\<close> / \<^verbatim>\<open>Date.now()\<close>: the next reading of the clock\<close>
definition new_Date :: "World \<Rightarrow> timestamp \<times> World" where
  "new_Date w = (clock w (clock_reads w), w\<lparr>clock_reads := Suc (clock_reads w)\<rparr>)"

text \<open>
  \<^verbatim>\<open>Math.floor(Math.random() * n)\<close>: \<^verbatim>\<open>Math.random()\<close> lies in [0, 1), so the
  result is an index below \<open>n\<close>; the draw is reduced to that range.
\<close>
definition randomIndex :: "nat \<Rightarrow> World \<Rightarrow> nat \<times> World" where
  "randomIndex n w = (entropy w (draws w) mod n, w\<lparr>draws := Suc (draws w)\<rparr>)"

text \<open>
  The unique keys migration 002 declares per table. \<^verbatim>\<open>post_statistics\<close> is created
  with four \<^verbatim>\<open>notNull\<close> columns and neither a primary key nor a unique constraint
  (its three indexes are plain indexes), unlike \<^verbatim>\<open>followee_relationships\<close> and
  \<^verbatim>\<open>daily_stats\<close>.
\<close>

definition post_statistics_unique :: "(PostStatistics \<Rightarrow> string list) list" where
  "post_statistics_unique = []"

definition followee_relationships_unique :: "(FolloweeRelationship \<Rightarrow> string list) list" where
  "followee_relationships_unique = [\<lambda>r. [fr_user_did r, followee_did r]]"

text \<open>A row conflicts with a table when it agrees with a stored row on a unique key.\<close>
definition conflicts :: "('r \<Rightarrow> 'k) list \<Rightarrow> 'r \<Rightarrow> 'r list \<Rightarrow> bool" where
  "conflicts keys row rows = list_ex (\<lambda>k. list_ex (\<lambda>r. k r = k row) rows) keys"

text \<open>\<^verbatim>\<open>insertInto(t).values(row).onConflict((oc) => oc.doNothing())\<close>\<close>
definition insertOnConflictDoNothing :: "('r \<Rightarrow> 'k) list \<Rightarrow> 'r \<Rightarrow> 'r list \<Rightarrow> 'r list" where
  "insertOnConflictDoNothing keys row rows = (if conflicts keys row rows then rows else rows @ [row])"

section \<open>User management (getOrCreateUserPreferences, calculateDefaultMahootNumber, getUserFollowees)\<close>

definition getOrCreateUserPreferences :: "World \<Rightarrow> did \<Rightarrow> UserPreferences \<times> World" where
  "getOrCreateUserPreferences w userDid =
     (let (now, w1) = new_Date w in
      case find (\<lambda>r. up_user_did r = userDid) (user_preferences (db w1)) of
        Some existing \<Rightarrow> (existing, w1)
      | None \<Rightarrow>
          let row = \<lparr>up_user_did = userDid, daily_post_limit = 300, default_mahoot_number = 7,
                     up_created_at = now, up_updated_at = now\<rparr>
          in (row, w1\<lparr>db := (db w1)\<lparr>user_preferences := user_preferences (db w1) @ [row]\<rparr>\<rparr>))"

definition getUserFollowees :: "World \<Rightarrow> did \<Rightarrow> FolloweeRelationship list" where
  "getUserFollowees w userDid = filter (\<lambda>r. fr_user_did r = userDid) (followee_relationships (db w))"

definition calculateDefaultMahootNumber :: "World \<Rightarrow> did \<Rightarrow> int \<times> World" where
  "calculateDefaultMahootNumber w userDid =
     (let (preferences, w1) = getOrCreateUserPreferences w userDid;
          count = length (filter (\<lambda>r. fr_user_did r = userDid) (followee_relationships (db w1)))
      in if count = 0 then (default_mahoot_number preferences, w1)
         else
           let calculated = max 1 \<lceil>real_of_int (daily_post_limit preferences) / real count\<rceil>
           in (min calculated 20, w1))"

section \<open>Statistics (trackPostView and the queries over post_statistics and daily_stats)\<close>

definition trackPostView :: "World \<Rightarrow> string \<Rightarrow> did \<Rightarrow> did \<Rightarrow> World" where
  "trackPostView w postUri authorDid viewerDid =
     (let (now, w1) = new_Date w;
          row = \<lparr>post_uri = postUri, ps_author_did = authorDid, viewer_did = viewerDid, viewed_at = now\<rparr>
      in w1\<lparr>db := (db w1)\<lparr>post_statistics :=
            insertOnConflictDoNothing post_statistics_unique row (post_statistics (db w1))\<rparr>\<rparr>)"

definition daily_stats_unique :: "(DailyStats \<Rightarrow> did \<times> isodate) list" where
  "daily_stats_unique = [\<lambda>r. (ds_user_did r, date r)]"

text \<open>\<^verbatim>\<open>.limit(n)\<close>: SQLite reads a negative limit as no limit.\<close>
definition sqlLimit :: "int \<Rightarrow> 'a list \<Rightarrow> 'a list" where
  "sqlLimit n rows = (if n < 0 then rows else take (nat n) rows)"

text \<open>
  \<^verbatim>\<open>Array.prototype.sort(cmp)\<close> and \<^verbatim>\<open>orderBy\<close>: a stable sort driven by the
  comparator, \<open>a\<close> staying before \<open>b\<close> when \<open>cmp a b \<le> 0\<close>.
\<close>
fun insertBy :: "('a \<Rightarrow> 'a \<Rightarrow> int) \<Rightarrow> 'a \<Rightarrow> 'a list \<Rightarrow> 'a list" where
  "insertBy cmp x [] = [x]"
| "insertBy cmp x (y # ys) = (if cmp x y \<le> 0 then x # y # ys else y # insertBy cmp x ys)"

definition sortBy :: "('a \<Rightarrow> 'a \<Rightarrow> int) \<Rightarrow> 'a list \<Rightarrow> 'a list" where
  "sortBy cmp xs = foldr (insertBy cmp) xs []"

text \<open>\<^verbatim>\<open>Number(x || 0)\<close> on an aggregate that is NULL over no rows\<close>
fun orZero :: "'a::zero option \<Rightarrow> 'a" where
  "orZero None = 0"
| "orZero (Some x) = (if x = 0 then 0 else x)"




definition getPostsViewedToday :: "World \<Rightarrow> did \<Rightarrow> PostStatistics list \<times> World" where
  "getPostsViewedToday w viewerDid =
     (let (now, w1) = new_Date w;
          today = isoDate now
      in (filter (\<lambda>r. viewer_did r = viewerDid \<and> dayStart today \<le> viewed_at r
                        \<and> viewed_at r < dayLastMs today) (post_statistics (db w1)), w1))"

text \<open>
  The query selects \<^verbatim>\<open>uri, cid, indexedAt\<close> of the rows; the model returns the rows.
\<close>
definition getUnviewedPostsByAuthor :: "World \<Rightarrow> did \<Rightarrow> did \<Rightarrow> int \<Rightarrow> Post list" where
  "getUnviewedPostsByAuthor w viewerDid authorDid limit =
     sqlLimit limit
       (sortBy (\<lambda>a b. indexedAt b - indexedAt a)
          (filter (\<lambda>p. p_author_did p = authorDid
                      \<and> \<not> list_ex (\<lambda>s. post_uri s = uri p \<and> viewer_did s = viewerDid)
                            (post_statistics (db w)))
             (post (db w))))"

datatype error = AuthenticationRequired | FailedToUpdateDailyStats

text \<open>
  \<^verbatim>\<open>updateDailyStats\<close>: the insert throws on the unique key (user_did, date) and the
  \<^verbatim>\<open>catch\<close> updates the stored row instead; the row is then read back.
\<close>
definition updateDailyStats ::
  "World \<Rightarrow> did \<Rightarrow> isodate \<Rightarrow> int \<Rightarrow> int \<Rightarrow> error + (DailyStats \<times> World)" where
  "updateDailyStats w userDid day totalPostsViewed followeeCount =
     (let (now, w1) = new_Date w;
          row = \<lparr>ds_user_did = userDid, date = day, total_posts_viewed = totalPostsViewed,
                 followee_count = followeeCount\<rparr>;
          rows = daily_stats (db w1);
          rows' = (if conflicts daily_stats_unique row rows
                   then map (\<lambda>r. if ds_user_did r = userDid \<and> date r = day
                                  then r\<lparr>total_posts_viewed := totalPostsViewed,
                                         followee_count := followeeCount\<rparr>
                                  else r) rows
                   else rows @ [row]);
          w2 = w1\<lparr>db := (db w1)\<lparr>daily_stats := rows'\<rparr>\<rparr>
      in case find (\<lambda>r. ds_user_did r = userDid \<and> date r = day) rows' of
           None \<Rightarrow> Inl FailedToUpdateDailyStats
         | Some result \<Rightarrow> Inr (result, w2))"

record RollingStats =
  totalPostsViewed :: int
  averagePostsPerDay :: real
  followeeCount :: int
  daysWithData :: nat


record PostAuthorStats =
  pas_author_did :: did
  pas_viewer_did :: did
  posts_viewed_today :: nat
  posts_viewed_this_week :: nat
  posts_viewed_this_month :: nat
  pas_mahoot_number :: int

text \<open>\<^verbatim>\<open>count(post_uri)\<close> of a viewer's rows for an author from a given instant on\<close>
definition countViewsSince :: "World \<Rightarrow> did \<Rightarrow> did \<Rightarrow> timestamp \<Rightarrow> nat" where
  "countViewsSince w viewerDid authorDid since =
     length (filter (\<lambda>r. viewer_did r = viewerDid \<and> ps_author_did r = authorDid \<and> since \<le> viewed_at r)
               (post_statistics (db w)))"

definition getPostAuthorStats :: "World \<Rightarrow> did \<Rightarrow> did \<Rightarrow> PostAuthorStats \<times> World" where
  "getPostAuthorStats w viewerDid authorDid =
     (let (t0, w1) = new_Date w;
          today = isoDate t0;
          (t1, w2) = new_Date w1;
          weekAgo = daysAgo (localTZA w2) 7 t1;
          (t2, w3) = new_Date w2;
          monthAgo = daysAgo (localTZA w3) 30 t2;
          todayPosts = countViewsSince w3 viewerDid authorDid (dayStart today);
          weekPosts = countViewsSince w3 viewerDid authorDid weekAgo;
          monthPosts = countViewsSince w3 viewerDid authorDid monthAgo;
          relationship = find (\<lambda>r. fr_user_did r = viewerDid \<and> followee_did r = authorDid)
                           (followee_relationships (db w3))
      in (\<lparr>pas_author_did = authorDid,
           pas_viewer_did = viewerDid,
           posts_viewed_today = todayPosts,
           posts_viewed_this_week = weekPosts,
           posts_viewed_this_month = monthPosts,
           pas_mahoot_number = orZero (map_option mahoot_number relationship)\<rparr>, w3))"

fun authorStatsLoop ::
  "did \<Rightarrow> did list \<Rightarrow> PostAuthorStats list \<times> World \<Rightarrow> PostAuthorStats list \<times> World" where
  "authorStatsLoop viewerDid [] st = st"
| "authorStatsLoop viewerDid (author # rest) (authorStats, w) =
     (let (stats, w1) = getPostAuthorStats w viewerDid author
      in authorStatsLoop viewerDid rest (authorStats @ [stats], w1))"

definition getAllAuthorStats :: "World \<Rightarrow> did \<Rightarrow> PostAuthorStats list \<times> World" where
  "getAllAuthorStats w viewerDid =
     (let authors = remdups (map ps_author_did
                      (filter (\<lambda>r. viewer_did r = viewerDid) (post_statistics (db w))))
      in authorStatsLoop viewerDid authors ([], w))"

section \<open>The feed algorithm (algos/mahoot.ts, handler)\<close>

datatype priority = High | Low | Normal

text \<open>The arrow of the reason text: up, down or none\<close>
datatype indicator = AmpUp | AmpDown | NoIndicator

text \<open>
  The reason text \<^verbatim>\<open>`Mahoot: ${n}/${m} posts from this followee today ${arrow}`\<close>,
  kept as the three values it interpolates.
\<close>
record Reason =
  reasonPosition :: nat
  reasonMahootNumber :: int
  reasonIndicator :: indicator

record MahootMetadata =
  mahootNumber :: int
  isCustomMahoot :: bool
  priorityLevel :: priority
  postsViewedFromFollowee :: nat
  followeeDid :: did
  timestamp :: timestamp

record MahootFeedItem =
  fi_post :: string
  fi_author_did :: did
  fi_mahoot_number :: int
  fi_posts_viewed_today :: nat
  fi_reason :: Reason
  fi_metadata :: MahootMetadata

record SkeletonItem =
  sk_post :: string
  sk_reason :: "Reason option"
  mahoot :: "MahootMetadata option"

record FeedMetadata =
  algorithm :: string
  version :: string
  userDid :: did
  dailyPostLimit :: int
  defaultMahootNumber :: int
  md_followeeCount :: nat
  postsViewedToday :: nat
  remainingPosts :: int
  feedGeneratedAt :: timestamp

record AlgoOutput =
  cursor :: "(timestamp \<times> string) option"
  feed :: "SkeletonItem list"
  metadata :: "FeedMetadata option"

record QueryParams =
  limit :: "int option"
  qp_cursor :: "string option"

text \<open>\<^verbatim>\<open>params.limit || 20\<close>: an absent limit and the limit 0 are both falsy.\<close>
definition limitOrDefault :: "int option \<Rightarrow> int" where
  "limitOrDefault l = (case l of None \<Rightarrow> 20 | Some n \<Rightarrow> if n = 0 then 20 else n)"

text \<open>What one pass through a loop body ends with: \<^verbatim>\<open>break\<close>, or on to the next element\<close>
datatype 'a loop = Break 'a | Next 'a

text \<open>
  The Fisher-Yates loop \<^verbatim>\<open>for (let i = n - 1; i > 0; i--)\<close>; the destructuring swap
  reads both elements before it writes.
\<close>
fun shuffleFrom :: "nat \<Rightarrow> 'a list \<Rightarrow> World \<Rightarrow> 'a list \<times> World" where
  "shuffleFrom 0 xs w = (xs, w)"
| "shuffleFrom (Suc k) xs w =
     (let i = Suc k;
          (j, w1) = randomIndex (i + 1) w
      in shuffleFrom k (xs[i := xs ! j, j := xs ! i]) w1)"

definition shuffle :: "'a list \<Rightarrow> World \<Rightarrow> 'a list \<times> World" where
  "shuffle xs w = shuffleFrom (length xs - 1) xs w"

text \<open>The body of the inner loop \<^verbatim>\<open>for (const post of shuffledPosts)\<close>\<close>
definition addPost ::
  "UserPreferences \<Rightarrow> did \<Rightarrow> did \<Rightarrow> int \<Rightarrow> int \<Rightarrow> Post
    \<Rightarrow> MahootFeedItem list \<times> nat \<times> World \<Rightarrow> (MahootFeedItem list \<times> nat \<times> World) loop" where
  "addPost userPrefs requesterDid followeeDid' mahootNumber' postsToShow p st =
     (case st of (mahootFeed, postsViewedFromFolloweeCount, w) \<Rightarrow>
      let isCustom = (mahootNumber' \<noteq> default_mahoot_number userPrefs);
          priorityIndicator =
            (if mahootNumber' > default_mahoot_number userPrefs then AmpUp
             else if mahootNumber' < default_mahoot_number userPrefs then AmpDown else NoIndicator);
          reason = \<lparr>reasonPosition = postsViewedFromFolloweeCount + 1,
                    reasonMahootNumber = mahootNumber', reasonIndicator = priorityIndicator\<rparr>;
          level =
            (if mahootNumber' > default_mahoot_number userPrefs then High
             else if mahootNumber' < default_mahoot_number userPrefs then Low else Normal);
          (now, w1) = new_Date w;
          meta = \<lparr>mahootNumber = mahootNumber', isCustomMahoot = isCustom, priorityLevel = level,
                  postsViewedFromFollowee = postsViewedFromFolloweeCount + 1,
                  followeeDid = followeeDid', timestamp = now\<rparr>;
          mahootFeed' = mahootFeed @
            [\<lparr>fi_post = uri p, fi_author_did = followeeDid', fi_mahoot_number = mahootNumber',
              fi_posts_viewed_today = postsViewedFromFolloweeCount, fi_reason = reason,
              fi_metadata = meta\<rparr>];
          w2 = trackPostView w1 (uri p) followeeDid' requesterDid
      in if int (length mahootFeed') \<ge> postsToShow
         then Break (mahootFeed', postsViewedFromFolloweeCount + 1, w2)
         else Next (mahootFeed', postsViewedFromFolloweeCount + 1, w2))"

fun addPosts ::
  "UserPreferences \<Rightarrow> did \<Rightarrow> did \<Rightarrow> int \<Rightarrow> int \<Rightarrow> Post list
    \<Rightarrow> MahootFeedItem list \<times> nat \<times> World \<Rightarrow> MahootFeedItem list \<times> nat \<times> World" where
  "addPosts userPrefs requesterDid followeeDid' mahootNumber' postsToShow [] st = st"
| "addPosts userPrefs requesterDid followeeDid' mahootNumber' postsToShow (p # rest) st =
     (case addPost userPrefs requesterDid followeeDid' mahootNumber' postsToShow p st of
        Break st' \<Rightarrow> st'
      | Next st' \<Rightarrow> addPosts userPrefs requesterDid followeeDid' mahootNumber' postsToShow rest st')"

text \<open>The body of the outer loop \<^verbatim>\<open>for (const followee of sortedFollowees)\<close>\<close>
definition processFollowee ::
  "UserPreferences \<Rightarrow> did \<Rightarrow> PostStatistics list \<Rightarrow> int \<Rightarrow> FolloweeRelationship
    \<Rightarrow> MahootFeedItem list \<times> World \<Rightarrow> (MahootFeedItem list \<times> World) loop" where
  "processFollowee userPrefs requesterDid postsViewedToday' postsToShow followee st =
     (case st of (mahootFeed, w) \<Rightarrow>
      let followeeDid' = followee_did followee;
          mahootNumber' = mahoot_number followee
      in if mahootNumber' = 0 then Next (mahootFeed, w)
         else
           let postsViewedFromFolloweeCount =
                 length (filter (\<lambda>post. ps_author_did post = followeeDid') postsViewedToday')
           in if int postsViewedFromFolloweeCount \<ge> mahootNumber' then Next (mahootFeed, w)
              else
                let remainingFromFollowee = mahootNumber' - int postsViewedFromFolloweeCount;
                    postsToShowFromFollowee =
                      min remainingFromFollowee (postsToShow - int (length mahootFeed))
                in if postsToShowFromFollowee \<le> 0 then Next (mahootFeed, w)
                   else
                     let unviewedPosts = getUnviewedPostsByAuthor w requesterDid followeeDid'
                                           (postsToShowFromFollowee * 3)
                     in if length unviewedPosts = 0 then Next (mahootFeed, w)
                        else
                          let postsToInclude = take (nat postsToShowFromFollowee) unviewedPosts;
                              (shuffledPosts, w1) = shuffle postsToInclude w;
                              (mahootFeed', _, w2) =
                                 addPosts userPrefs requesterDid followeeDid' mahootNumber'
                                   postsToShow shuffledPosts
                                   (mahootFeed, postsViewedFromFolloweeCount, w1)
                          in if int (length mahootFeed') \<ge> postsToShow
                             then Break (mahootFeed', w2) else Next (mahootFeed', w2))"

fun processFollowees ::
  "UserPreferences \<Rightarrow> did \<Rightarrow> PostStatistics list \<Rightarrow> int \<Rightarrow> FolloweeRelationship list
    \<Rightarrow> MahootFeedItem list \<times> World \<Rightarrow> MahootFeedItem list \<times> World" where
  "processFollowees userPrefs requesterDid postsViewedToday' postsToShow [] st = st"
| "processFollowees userPrefs requesterDid postsViewedToday' postsToShow (followee # rest) st =
     (case processFollowee userPrefs requesterDid postsViewedToday' postsToShow followee st of
        Break st' \<Rightarrow> st'
      | Next st' \<Rightarrow> processFollowees userPrefs requesterDid postsViewedToday' postsToShow rest st')"

text \<open>
  The recency key of the final sort, \<^verbatim>\<open>new Date(post.split('/').pop() || '0').getTime()\<close>.
  The date parser belongs to the runtime and is a parameter: \<open>None\<close> is its NaN, and a
  comparator result of NaN counts as 0 in \<^verbatim>\<open>sort\<close>.
\<close>
definition lastSegment :: "string \<Rightarrow> string" where
  "lastSegment s = (let seg = rev (takeWhile (\<lambda>c. c \<noteq> CHR ''/'') (rev s)) in if seg = [] then ''0'' else seg)"

definition byRecency :: "(string \<Rightarrow> int option) \<Rightarrow> MahootFeedItem \<Rightarrow> MahootFeedItem \<Rightarrow> int" where
  "byRecency getTime a b =
     (case (getTime (lastSegment (fi_post a)), getTime (lastSegment (fi_post b))) of
        (Some aTime, Some bTime) \<Rightarrow> bTime - aTime
      | _ \<Rightarrow> 0)"

definition toSkeleton :: "MahootFeedItem \<Rightarrow> SkeletonItem" where
  "toSkeleton item = \<lparr>sk_post = fi_post item, sk_reason = Some (fi_reason item),
                       mahoot = Some (fi_metadata item)\<rparr>"

definition emptyPage :: AlgoOutput where
  "emptyPage = \<lparr>cursor = None, feed = [], metadata = None\<rparr>"

definition handler ::
  "(string \<Rightarrow> int option) \<Rightarrow> World \<Rightarrow> QueryParams \<Rightarrow> did option \<Rightarrow> error + (AlgoOutput \<times> World)" where
  "handler getTime w params requesterDid =
     (case requesterDid of
        None \<Rightarrow> Inl AuthenticationRequired
      | Some requester \<Rightarrow>
          if requester = [] then Inl AuthenticationRequired
          else
            let (userPrefs, w1) = getOrCreateUserPreferences w requester;
                followees = getUserFollowees w1 requester
            in if length followees = 0 then Inr (emptyPage, w1)
               else
                 let (postsViewedToday', w2) = getPostsViewedToday w1 requester;
                     postsViewedCount = int (length postsViewedToday')
                 in if postsViewedCount \<ge> daily_post_limit userPrefs then Inr (emptyPage, w2)
                    else
                      let remaining = daily_post_limit userPrefs - postsViewedCount;
                          postsToShow = min remaining (limitOrDefault (limit params));
                          (now, w3) = new_Date w2;
                          today = isoDate now;
                          sortedFollowees =
                            sortBy (\<lambda>a b. mahoot_number b - mahoot_number a) followees;
                          (mahootFeed, w4) =
                            processFollowees userPrefs requester postsViewedToday' postsToShow
                              sortedFollowees ([], w3);
                          sortedFeed = sortBy (byRecency getTime) mahootFeed;
                          newTotalPostsViewed = postsViewedCount + int (length sortedFeed)
                      in (case updateDailyStats w4 requester today newTotalPostsViewed
                                (int (length followees)) of
                           Inl e \<Rightarrow> Inl e
                         | Inr (_, w5) \<Rightarrow>
                             let (cursor', w6) =
                                   (if length sortedFeed > 0
                                    then let (ms, w') = new_Date w5
                                         in (Some (ms, fi_post (last sortedFeed)), w')
                                    else (None, w5));
                                 (generatedAt, w7) = new_Date w6;
                                 feedMetadata =
                                   \<lparr>algorithm = ''mahoot'', version = ''1.0.0'',
                                    userDid = requester,
                                    dailyPostLimit = daily_post_limit userPrefs,
                                    defaultMahootNumber = default_mahoot_number userPrefs,
                                    md_followeeCount = length followees,
                                    postsViewedToday = length postsViewedToday',
                                    remainingPosts = daily_post_limit userPrefs - postsViewedCount,
                                    feedGeneratedAt = generatedAt\<rparr>
                             in Inr (\<lparr>cursor = cursor', feed = map toSkeleton sortedFeed,
                                      metadata = Some feedMetadata\<rparr>, w7)))"

section \<open>Notions used by the statements\<close>

text \<open>\<open>clamp\<close> as the specification words it: the value, held between the two bounds\<close>
definition clamp :: "int \<Rightarrow> int \<Rightarrow> int \<Rightarrow> int" where
  "clamp x lo hi = (if x < lo then lo else if hi < x then hi else x)"

text \<open>
  The views \<^verbatim>\<open>getPostsViewedToday\<close> selects for a viewer on a day: those with
  \<^verbatim>\<open>viewed_at\<close> from 00:00:00.000 up to, not including, 23:59:59.999 of the day
\<close>
definition viewsOn :: "Database \<Rightarrow> did \<Rightarrow> isodate \<Rightarrow> PostStatistics list" where
  "viewsOn d u day =
     filter (\<lambda>r. viewer_did r = u \<and> dayStart day \<le> viewed_at r \<and> viewed_at r < dayLastMs day)
       (post_statistics d)"

text \<open>A viewer's views of one author on a day\<close>
definition viewsOnBy :: "Database \<Rightarrow> did \<Rightarrow> did \<Rightarrow> isodate \<Rightarrow> PostStatistics list" where
  "viewsOnBy d u a day = filter (\<lambda>x. ps_author_did x = a) (viewsOn d u day)"

text \<open>The posts of an author that a viewer has no view of: the rows the query filters\<close>
definition unviewedBy :: "Database \<Rightarrow> did \<Rightarrow> did \<Rightarrow> Post list" where
  "unviewedBy d viewerDid authorDid =
     filter (\<lambda>p. p_author_did p = authorDid
                \<and> \<not> list_ex (\<lambda>s. post_uri s = uri p \<and> viewer_did s = viewerDid) (post_statistics d))
       (post d)"

text \<open>What is left today of a followee's Mahoot number, given today's views; nothing for a muted one\<close>
definition allowance :: "PostStatistics list \<Rightarrow> FolloweeRelationship \<Rightarrow> int" where
  "allowance viewed f =
     (if mahoot_number f = 0 then 0
      else max 0 (mahoot_number f
                   - int (length (filter (\<lambda>x. ps_author_did x = followee_did f) viewed))))"


text \<open>The \<^verbatim>\<open>daily_stats\<close> row of a user and a date\<close>
definition dailyStatOf :: "Database \<Rightarrow> did \<Rightarrow> isodate \<Rightarrow> DailyStats option" where
  "dailyStatOf d u day = find (\<lambda>r. ds_user_did r = u \<and> date r = day) (daily_stats d)"

text \<open>
  The stored total of a user and a day, where there is one, is the number of the user's
  views on that day.
\<close>
definition dailyStatAgrees :: "Database \<Rightarrow> did \<Rightarrow> isodate \<Rightarrow> bool" where
  "dailyStatAgrees d u day \<longleftrightarrow>
     (case dailyStatOf d u day of
        None \<Rightarrow> True
      | Some stored \<Rightarrow> total_posts_viewed stored = int (length (viewsOn d u day)))"

text \<open>The row \<^verbatim>\<open>getOrCreateUserPreferences\<close> inserts for a user who has none\<close>
definition defaultPreferences :: "did \<Rightarrow> timestamp \<Rightarrow> UserPreferences" where
  "defaultPreferences u now = \<lparr>up_user_did = u, daily_post_limit = 300, default_mahoot_number = 7,
                                up_created_at = now, up_updated_at = now\<rparr>"

text \<open>
  From \<open>w\<close> to \<open>w'\<close> no table has changed, except that the default preferences of
  the user were inserted if the user had none.
\<close>
definition createsAtMostPreferences :: "World \<Rightarrow> did \<Rightarrow> World \<Rightarrow> bool" where
  "createsAtMostPreferences w u w' \<longleftrightarrow>
     post (db w') = post (db w) \<and>
     followee_relationships (db w') = followee_relationships (db w) \<and>
     post_statistics (db w') = post_statistics (db w) \<and>
     daily_stats (db w') = daily_stats (db w) \<and>
     user_preferences (db w') =
       (case find (\<lambda>r. up_user_did r = u) (user_preferences (db w)) of
          Some stored \<Rightarrow> user_preferences (db w)
        | None \<Rightarrow> user_preferences (db w) @ [defaultPreferences u (clock w (clock_reads w))])"


text \<open>
  From \<open>w\<close> to \<open>w'\<close> the rows \<open>news\<close> were appended to \<^verbatim>\<open>post_statistics\<close>, each a view
  by \<open>r\<close> stamped with a reading of the clock taken since \<open>w\<close>; nothing else was written.
\<close>
definition recorded :: "did \<Rightarrow> World \<Rightarrow> World \<Rightarrow> PostStatistics list \<Rightarrow> bool" where
  "recorded r w w' news \<longleftrightarrow>
     post_statistics (db w') = post_statistics (db w) @ news \<and>
     post (db w') = post (db w) \<and>
     user_preferences (db w') = user_preferences (db w) \<and>
     followee_relationships (db w') = followee_relationships (db w) \<and>
     daily_stats (db w') = daily_stats (db w) \<and>
     clock w' = clock w \<and> clock_reads w \<le> clock_reads w' \<and>
     list_all (\<lambda>x. viewer_did x = r \<and> (\<exists>k. clock_reads w \<le> k \<and> k < clock_reads w' \<and> viewed_at x = clock w k)) news"

text \<open>The state a pass through a loop body leaves\<close>
fun outcome :: "'a loop \<Rightarrow> 'a" where
  "outcome (Break st) = st"
| "outcome (Next st) = st"

text \<open>The items of a feed page that come from one followee\<close>
definition itemsFrom :: "did \<Rightarrow> SkeletonItem list \<Rightarrow> SkeletonItem list" where
  "itemsFrom a page = filter (\<lambda>i. map_option followeeDid (mahoot i) = Some a) page"

text \<open>The world with one more row in \<^verbatim>\<open>followee_relationships\<close>\<close>
definition withEdge :: "World \<Rightarrow> FolloweeRelationship \<Rightarrow> World" where
  "withEdge w e = w\<lparr>db := (db w)\<lparr>followee_relationships := followee_relationships (db w) @ [e]\<rparr>\<rparr>"

text \<open>
  Sequential calls of the handler: each runs in the world the previous one left. A call
  that throws for a missing requester has not touched the world.
\<close>
fun generateFeeds ::
  "(string \<Rightarrow> int option) \<Rightarrow> (QueryParams \<times> did option) list \<Rightarrow> World \<Rightarrow> World" where
  "generateFeeds gt [] w = w"
| "generateFeeds gt ((params, requesterDid) # rest) w =
     (case handler gt w params requesterDid of
        Inl e \<Rightarrow> generateFeeds gt rest w
      | Inr (out, w') \<Rightarrow> generateFeeds gt rest w')"

section \<open>Sample data\<close>

text \<open>The database after the migrations, before any insert\<close>
definition emptyDb :: Database where
  "emptyDb = \<lparr>post = [], user_preferences = [], followee_relationships = [],
              post_statistics = [], daily_stats = []\<rparr>"

text \<open>A world over a database whose clock stands still at one instant, on a host set to UTC\<close>
definition worldOf :: "Database \<Rightarrow> timestamp \<Rightarrow> World" where
  "worldOf d t = \<lparr>db = d, clock = (\<lambda>k. t), clock_reads = 0, entropy = (\<lambda>k. k), draws = 0,
                   localTZA = (\<lambda>t isUTC. 0)\<rparr>"

text \<open>
  A world over a database whose clock passes midnight between its third and its fourth
  reading: three readings one second before the end of day 1000, the later ones 5 ms
  into day 1001
\<close>
definition midnightWorld :: "Database \<Rightarrow> World" where
  "midnightWorld d = \<lparr>db = d,
                       clock = (\<lambda>k. if k < 3 then dayStart 1000 + 86399000 else dayStart 1001 + 5),
                       clock_reads = 0, entropy = (\<lambda>k. k), draws = 0,
                       localTZA = (\<lambda>t isUTC. 0)\<rparr>"

text \<open>
  A world over a database whose clock, set back for a moment, shows day 999 at its tenth
  reading and day 1000 at every other one
\<close>
definition setBackWorld :: "Database \<Rightarrow> World" where
  "setBackWorld d = \<lparr>db = d,
                      clock = (\<lambda>k. if k = 9 then dayStart 999 + 5000 else dayStart 1000 + 5000),
                      clock_reads = 0, entropy = (\<lambda>k. k), draws = 0,
                      localTZA = (\<lambda>t isUTC. 0)\<rparr>"

text \<open>A date parser that rejects every string (its result is NaN)\<close>
definition noDates :: "string \<Rightarrow> int option" where
  "noDates s = None"

text \<open>A request for a page of 20\<close>
definition sampleParams :: QueryParams where
  "sampleParams = \<lparr>limit = Some 20, qp_cursor = None\<rparr>"

text \<open>A row of \<^verbatim>\<open>followee_relationships\<close> with the follow URI the code defaults to\<close>
definition follows :: "did \<Rightarrow> did \<Rightarrow> int \<Rightarrow> FolloweeRelationship" where
  "follows u f q = \<lparr>fr_user_did = u, followee_did = f, mahoot_number = q,
                    follow_uri = ''at://'' @ u @ ''/app.bsky.graph.follow/'' @ f,
                    fr_created_at = 0, fr_updated_at = 0\<rparr>"

text \<open>\<open>n\<close> followees of one user, all with the same Mahoot number\<close>
definition followeeRows :: "did \<Rightarrow> int \<Rightarrow> nat \<Rightarrow> FolloweeRelationship list" where
  "followeeRows u q n =
     map (\<lambda>i. \<lparr>fr_user_did = u, followee_did = replicate (Suc i) CHR ''f'', mahoot_number = q,
                follow_uri = replicate (Suc i) CHR ''x'', fr_created_at = 0, fr_updated_at = 0\<rparr>)
       [0..<n]"

text \<open>A post of an author, under the URI the author's repository gives it\<close>
definition postNamed :: "did \<Rightarrow> string \<Rightarrow> Post" where
  "postNamed a n = \<lparr>uri = ''at://'' @ a @ ''/app.bsky.feed.post/'' @ n, cid = ''c'', indexedAt = 0,
                    p_author_did = a\<rparr>"

text \<open>The row \<^verbatim>\<open>trackPostView\<close> stores when a viewer is shown a post at an instant\<close>
definition viewOf :: "did \<Rightarrow> timestamp \<Rightarrow> Post \<Rightarrow> PostStatistics" where
  "viewOf u t p = \<lparr>post_uri = uri p, ps_author_did = p_author_did p, viewer_did = u, viewed_at = t\<rparr>"

text \<open>Stored preferences of alice with the daily limit 2\<close>
definition aliceLimit2 :: UserPreferences where
  "aliceLimit2 = \<lparr>up_user_did = ''alice'', daily_post_limit = 2, default_mahoot_number = 7,
                   up_created_at = 0, up_updated_at = 0\<rparr>"

text \<open>alice with 20 followees, and with 1000; she has no stored preferences.\<close>
definition world20 :: World where
  "world20 = worldOf (emptyDb\<lparr>followee_relationships := followeeRows ''alice'' 5 20\<rparr>) 0"

definition world1000 :: World where
  "world1000 = worldOf (emptyDb\<lparr>followee_relationships := followeeRows ''alice'' 5 1000\<rparr>) 0"


text \<open>alice was shown a post of bob, whom she does not follow (any more).\<close>
definition unfollowedDb :: Database where
  "unfollowedDb = emptyDb\<lparr>post_statistics :=
      [\<lparr>post_uri = ''at://bob/app.bsky.feed.post/1'', ps_author_did = ''bob'',
        viewer_did = ''alice'', viewed_at = 5\<rparr>]\<rparr>"

text \<open>alice has stored preferences and follows nobody.\<close>
definition storedPrefsDb :: Database where
  "storedPrefsDb = emptyDb\<lparr>user_preferences := [aliceLimit2]\<rparr>"


text \<open>alice, without stored preferences, follows bob (Mahoot number 5), who has one post.\<close>
definition onePostDb :: Database where
  "onePostDb = emptyDb\<lparr>
       post := [\<lparr>uri = ''at://bob/app.bsky.feed.post/1'', cid = ''c1'', indexedAt = 100,
                 p_author_did = ''bob''\<rparr>],
       followee_relationships := [follows ''alice'' ''bob'' 5]\<rparr>"

text \<open>alice follows bob with Mahoot number 1 and carol with Mahoot number 0; each has two posts.\<close>
definition quotaDb :: Database where
  "quotaDb = emptyDb\<lparr>
       post := [\<lparr>uri = ''at://bob/app.bsky.feed.post/1'', cid = ''c1'', indexedAt = 100,
                 p_author_did = ''bob''\<rparr>,
                \<lparr>uri = ''at://bob/app.bsky.feed.post/2'', cid = ''c2'', indexedAt = 200,
                 p_author_did = ''bob''\<rparr>,
                \<lparr>uri = ''at://carol/app.bsky.feed.post/1'', cid = ''c3'', indexedAt = 300,
                 p_author_did = ''carol''\<rparr>,
                \<lparr>uri = ''at://carol/app.bsky.feed.post/2'', cid = ''c4'', indexedAt = 400,
                 p_author_did = ''carol''\<rparr>],
       followee_relationships := [follows ''alice'' ''bob'' 1, follows ''alice'' ''carol'' 0]\<rparr>"

text \<open>
  alice follows ben (Mahoot number 3) and ann (Mahoot number 10), stored in this order;
  ann has 13 posts, ben has 5, and alice has seen none.
\<close>
definition priorityDb :: Database where
  "priorityDb = emptyDb\<lparr>
       post := map (postNamed ''ann'')
                 [''pa'', ''pb'', ''pc'', ''pd'', ''pe'', ''pf'', ''pg'', ''ph'', ''pi'', ''pj'', ''pk'', ''pl'', ''pm'']
               @ map (postNamed ''ben'') [''pa'', ''pb'', ''pc'', ''pd'', ''pe''],
       followee_relationships := [follows ''alice'' ''ben'' 3, follows ''alice'' ''ann'' 10]\<rparr>"

text \<open>The same, after alice has seen five of ann's posts in the first second of day 1000\<close>
definition fiveSeenDb :: Database where
  "fiveSeenDb = priorityDb\<lparr>post_statistics :=
       map (\<lambda>n. viewOf ''alice'' (dayStart 1000 + 1) (postNamed ''ann'' n)) [''pa'', ''pb'', ''pc'', ''pd'', ''pe'']\<rparr>"

section \<open>Basic facts about the operations\<close>

lemma recorded_refl: "recorded r w w []"
  by (simp add: recorded_def)

lemma insertBy_mset [simp]: "mset (insertBy cmp x xs) = add_mset x (mset xs)"
  by (induction xs) simp_all

lemma find_None_iff': "find P xs = None \<longleftrightarrow> \<not> (\<exists>x \<in> set xs. P x)"
  by (induction xs) auto

lemma new_Date_simps [simp]:
  "fst (new_Date w) = clock w (clock_reads w)"
  "db (snd (new_Date w)) = db w"
  "clock (snd (new_Date w)) = clock w"
  "clock_reads (snd (new_Date w)) = Suc (clock_reads w)"
  "entropy (snd (new_Date w)) = entropy w"
  "draws (snd (new_Date w)) = draws w"
  "localTZA (snd (new_Date w)) = localTZA w"
  by (simp_all add: new_Date_def)

lemma getOrCreate_db:
  "post (db (snd (getOrCreateUserPreferences w u))) = post (db w)"
  "followee_relationships (db (snd (getOrCreateUserPreferences w u))) = followee_relationships (db w)"
  "post_statistics (db (snd (getOrCreateUserPreferences w u))) = post_statistics (db w)"
  "daily_stats (db (snd (getOrCreateUserPreferences w u))) = daily_stats (db w)"
  by (simp_all add: getOrCreateUserPreferences_def Let_def case_prod_beta split: option.splits)

lemma getOrCreate_world:
  "clock (snd (getOrCreateUserPreferences w u)) = clock w"
  "clock_reads (snd (getOrCreateUserPreferences w u)) = Suc (clock_reads w)"
  "entropy (snd (getOrCreateUserPreferences w u)) = entropy w"
  "draws (snd (getOrCreateUserPreferences w u)) = draws w"
  by (simp_all add: getOrCreateUserPreferences_def Let_def case_prod_beta split: option.splits)

lemma getOrCreate_existing:
  "find (\<lambda>r. up_user_did r = u) (user_preferences (db w)) = Some prefs \<Longrightarrow>
   fst (getOrCreateUserPreferences w u) = prefs \<and> db (snd (getOrCreateUserPreferences w u)) = db w"
  by (simp add: getOrCreateUserPreferences_def Let_def case_prod_beta)


lemma getUserFollowees_getOrCreate [simp]:
  "getUserFollowees (snd (getOrCreateUserPreferences w u)) v = getUserFollowees w v"
  by (simp add: getUserFollowees_def getOrCreate_db)

lemma calculateDefaultMahootNumber_fst:
  "fst (calculateDefaultMahootNumber w u) =
     (let prefs = fst (getOrCreateUserPreferences w u); N = length (getUserFollowees w u)
      in if N = 0 then default_mahoot_number prefs
         else clamp \<lceil>real_of_int (daily_post_limit prefs) / real N\<rceil> 1 20)"
  by (simp add: calculateDefaultMahootNumber_def getOrCreate_db getUserFollowees_def
      clamp_def Let_def case_prod_beta)

lemma length_followeeRows:
  "length (filter (\<lambda>r. fr_user_did r = u) (followeeRows u q n)) = n"
  by (simp add: followeeRows_def filter_map comp_def)

lemma trackPostView_db:
  "post_statistics (db (trackPostView w p a v)) =
     post_statistics (db w) @ [\<lparr>post_uri = p, ps_author_did = a, viewer_did = v,
                               viewed_at = clock w (clock_reads w)\<rparr>]"
  "post (db (trackPostView w p a v)) = post (db w)"
  "user_preferences (db (trackPostView w p a v)) = user_preferences (db w)"
  "followee_relationships (db (trackPostView w p a v)) = followee_relationships (db w)"
  "daily_stats (db (trackPostView w p a v)) = daily_stats (db w)"
  by (simp_all add: trackPostView_def insertOnConflictDoNothing_def conflicts_def
      post_statistics_unique_def Let_def case_prod_beta)

lemma trackPostView_world:
  "clock (trackPostView w p a v) = clock w"
  "clock_reads (trackPostView w p a v) = Suc (clock_reads w)"
  "entropy (trackPostView w p a v) = entropy w"
  "draws (trackPostView w p a v) = draws w"
  by (simp_all add: trackPostView_def Let_def case_prod_beta)

lemma find_append:
  "find P (xs @ ys) = (case find P xs of None \<Rightarrow> find P ys | Some x \<Rightarrow> Some x)"
  by (induction xs) simp_all

lemma getPostAuthorStats_db [simp]: "db (snd (getPostAuthorStats w v a)) = db w"
  by (simp add: getPostAuthorStats_def Let_def case_prod_beta)

lemma getPostAuthorStats_fields:
  "pas_author_did (fst (getPostAuthorStats w v a)) = a"
  "pas_mahoot_number (fst (getPostAuthorStats w v a)) =
     orZero (map_option mahoot_number
       (find (\<lambda>r. fr_user_did r = v \<and> followee_did r = a) (followee_relationships (db w))))"
  by (simp_all add: getPostAuthorStats_def Let_def case_prod_beta)

lemma authorStatsLoop_authors:
  "map pas_author_did (fst (authorStatsLoop v as (acc, w))) = map pas_author_did acc @ as"
  by (induction as arbitrary: acc w) (simp_all add: case_prod_beta getPostAuthorStats_fields)

lemma authorStatsLoop_mahoot:
  "s \<in> set (fst (authorStatsLoop v as (acc, w))) \<Longrightarrow>
   s \<in> set acc \<or>
   pas_mahoot_number s = orZero (map_option mahoot_number
       (find (\<lambda>r. fr_user_did r = v \<and> followee_did r = pas_author_did s)
          (followee_relationships (db w))))"
proof (induction as arbitrary: acc w)
  case Nil
  then show ?case by simp
next
  case (Cons a as)
  from Cons.prems Cons.IH [of "acc @ [fst (getPostAuthorStats w v a)]" "snd (getPostAuthorStats w v a)"]
  show ?case
    by (auto simp: case_prod_beta getPostAuthorStats_fields)
qed

lemma getOrCreate_creates: "createsAtMostPreferences w u (snd (getOrCreateUserPreferences w u))"
  by (simp add: createsAtMostPreferences_def getOrCreateUserPreferences_def defaultPreferences_def
      Let_def case_prod_beta split: option.splits)

lemma getPostsViewedToday_eq:
  "getPostsViewedToday w u = (viewsOn (db w) u (isoDate (clock w (clock_reads w))), snd (new_Date w))"
  by (simp add: getPostsViewedToday_def viewsOn_def Let_def case_prod_beta)

lemma handler_without_followees:
  "u \<noteq> [] \<Longrightarrow> getUserFollowees w u = [] \<Longrightarrow>
   handler gt w params (Some u) = Inr (emptyPage, snd (getOrCreateUserPreferences w u))"
  by (simp add: handler_def Let_def case_prod_beta)

lemma handler_at_limit:
  "u \<noteq> [] \<Longrightarrow> getUserFollowees w u \<noteq> [] \<Longrightarrow>
   daily_post_limit (fst (getOrCreateUserPreferences w u))
     \<le> int (length (viewsOn (db w) u (isoDate (clock w (Suc (clock_reads w)))))) \<Longrightarrow>
   handler gt w params (Some u) = Inr (emptyPage, snd (new_Date (snd (getOrCreateUserPreferences w u))))"
  by (simp add: handler_def Let_def case_prod_beta getPostsViewedToday_eq getOrCreate_db
      getOrCreate_world viewsOn_def)

lemma recorded_trans:
  "recorded r w w1 n1 \<Longrightarrow> recorded r w1 w2 n2 \<Longrightarrow> recorded r w w2 (n1 @ n2)"
  unfolding recorded_def list_all_iff
  by (auto, (metis le_trans less_le_trans)+)

lemma recorded_new_Date: "recorded r w (snd (new_Date w)) []"
  by (simp add: recorded_def)

lemma recorded_trackPostView:
  "recorded r w (trackPostView w p a r)
     [\<lparr>post_uri = p, ps_author_did = a, viewer_did = r, viewed_at = clock w (clock_reads w)\<rparr>]"
  by (auto simp: recorded_def trackPostView_db trackPostView_world)

lemma shuffleFrom_length [simp]: "length (fst (shuffleFrom k xs w)) = length xs"
  by (induction k arbitrary: xs w) (simp_all add: Let_def case_prod_beta)

lemma shuffleFrom_world [simp]:
  "db (snd (shuffleFrom k xs w)) = db w"
  "clock (snd (shuffleFrom k xs w)) = clock w"
  "clock_reads (snd (shuffleFrom k xs w)) = clock_reads w"
  by (induction k arbitrary: xs w) (simp_all add: Let_def case_prod_beta randomIndex_def)

lemma shuffle_length [simp]: "length (fst (shuffle xs w)) = length xs"
  by (simp add: shuffle_def)

lemma recorded_shuffle: "recorded r w (snd (shuffle xs w)) []"
  by (simp add: recorded_def shuffle_def)

lemma addPost_effect:
  assumes "addPost up r fd mn pts p (mf, cnt, w) = res"
  shows "\<exists>item w'. res = (if pts \<le> int (length mf) + 1 then Break else Next) (mf @ [item], Suc cnt, w')
           \<and> fi_author_did item = fd \<and> followeeDid (fi_metadata item) = fd
           \<and> recorded r w w' [\<lparr>post_uri = uri p, ps_author_did = fd, viewer_did = r,
                                 viewed_at = clock w (Suc (clock_reads w))\<rparr>]"
proof -
  have "recorded r w (trackPostView (snd (new_Date w)) (uri p) fd r)
          ([] @ [\<lparr>post_uri = uri p, ps_author_did = fd, viewer_did = r,
                  viewed_at = clock (snd (new_Date w)) (clock_reads (snd (new_Date w)))\<rparr>])"
    by (rule recorded_trans [OF recorded_new_Date recorded_trackPostView])
  then show ?thesis
    using assms by (auto simp: addPost_def Let_def case_prod_beta)
qed

lemma addPosts_effect:
  assumes "int (length mf) + int (length posts) \<le> pts"
  shows "\<exists>items news cnt' w'.
           addPosts up r fd mn pts posts (mf, cnt, w) = (mf @ items, cnt', w')
           \<and> length items = length posts \<and> length news = length posts
           \<and> list_all (\<lambda>i. fi_author_did i = fd \<and> followeeDid (fi_metadata i) = fd) items
           \<and> list_all (\<lambda>x. ps_author_did x = fd) news
           \<and> recorded r w w' news
           \<and> map post_uri news = map uri posts"
  using assms
proof (induction posts arbitrary: mf cnt w)
  case Nil
  show ?case by (simp add: recorded_refl)
next
  case (Cons p posts)
  obtain item w1 where step:
    "addPost up r fd mn pts p (mf, cnt, w) =
       (if pts \<le> int (length mf) + 1 then Break else Next) (mf @ [item], Suc cnt, w1)"
    "fi_author_did item = fd" "followeeDid (fi_metadata item) = fd"
    "recorded r w w1 [\<lparr>post_uri = uri p, ps_author_did = fd, viewer_did = r,
                        viewed_at = clock w (Suc (clock_reads w))\<rparr>]"
    using addPost_effect [OF refl, of up r fd mn pts p mf cnt w] by blast
  show ?case
  proof (cases "pts \<le> int (length mf) + 1")
    case True
    with Cons.prems have "posts = []" by (cases posts) auto
    with True step show ?thesis
      by (intro exI [of _ "[item]"] exI [of _ "[\<lparr>post_uri = uri p, ps_author_did = fd, viewer_did = r,
                        viewed_at = clock w (Suc (clock_reads w))\<rparr>]"] exI [of _ "Suc cnt"] exI [of _ w1]) simp
  next
    case False
    from Cons.prems have "int (length (mf @ [item])) + int (length posts) \<le> pts" by simp
    from Cons.IH [OF this, of "Suc cnt" w1]
    obtain items news cnt' w' where ih:
      "addPosts up r fd mn pts posts (mf @ [item], Suc cnt, w1) = ((mf @ [item]) @ items, cnt', w')"
      "length items = length posts" "length news = length posts"
      "list_all (\<lambda>i. fi_author_did i = fd \<and> followeeDid (fi_metadata i) = fd) items"
      "list_all (\<lambda>x. ps_author_did x = fd) news"
      "recorded r w1 w' news"
      "map post_uri news = map uri posts"
      by blast
    from False step ih show ?thesis
      by (intro exI [of _ "item # items"] exI [of _ "\<lparr>post_uri = uri p, ps_author_did = fd, viewer_did = r,
                        viewed_at = clock w (Suc (clock_reads w))\<rparr> # news"] exI [of _ cnt'] exI [of _ w'])
         (use recorded_trans [OF step(4) ih(6)] in simp)
  qed
qed

lemma sortBy_mset [simp]: "mset (sortBy cmp xs) = mset xs"
  by (induction xs) (simp_all add: sortBy_def)

lemma sortBy_length [simp]: "length (sortBy cmp xs) = length xs"
  using sortBy_mset [of cmp xs] by (metis size_mset)

lemma sortBy_set [simp]: "set (sortBy cmp xs) = set xs"
  using sortBy_mset [of cmp xs] by (metis set_mset_mset)

lemma getUnviewedPostsByAuthor_length:
  "0 \<le> n \<Longrightarrow>
   length (getUnviewedPostsByAuthor w v a n) = min (nat n) (length (unviewedBy (db w) v a))"
  by (simp add: getUnviewedPostsByAuthor_def sqlLimit_def unviewedBy_def min_def)

lemma processFollowee_effect:
  "\<exists>items news w'.
      outcome (processFollowee up r pvt pts f (mf, w)) = (mf @ items, w')
      \<and> length items = length news
      \<and> list_all (\<lambda>i. fi_author_did i = followee_did f \<and> followeeDid (fi_metadata i) = followee_did f) items
      \<and> list_all (\<lambda>x. ps_author_did x = followee_did f) news
      \<and> recorded r w w' news
      \<and> int (length news) \<le> allowance pvt f
      \<and> int (length mf) + int (length news) \<le> max pts (int (length mf))"
proof -
  define cnt where "cnt = length (filter (\<lambda>x. ps_author_did x = followee_did f) pvt)"
  define toShow where "toShow = min (mahoot_number f - int cnt) (pts - int (length mf))"
  define unviewed where "unviewed = getUnviewedPostsByAuthor w r (followee_did f) (toShow * 3)"
  define posts where "posts = fst (shuffle (take (nat toShow) unviewed) w)"
  define w1 where "w1 = snd (shuffle (take (nat toShow) unviewed) w)"
  have skip: ?thesis if "outcome (processFollowee up r pvt pts f (mf, w)) = (mf, w)"
    using that
    by (intro exI [of _ "[]"] exI [of _ w]) (simp add: recorded_refl allowance_def)
  show ?thesis
  proof (cases "mahoot_number f = 0 \<or> mahoot_number f \<le> int cnt \<or> toShow \<le> 0 \<or> unviewed = []")
    case True
    then have "outcome (processFollowee up r pvt pts f (mf, w)) = (mf, w)"
      by (auto simp: processFollowee_def Let_def cnt_def toShow_def unviewed_def)
    then show ?thesis by (rule skip)
  next
    case False
    have pos: "0 < toShow" "toShow \<le> pts - int (length mf)" "toShow \<le> mahoot_number f - int cnt"
      using False unfolding toShow_def by auto
    have lp: "length posts \<le> nat toShow"
      by (simp add: posts_def)
    have len: "int (length mf) + int (length posts) \<le> pts"
      using pos lp by linarith
    obtain items news cnt' w' where ap:
      "addPosts up r (followee_did f) (mahoot_number f) pts posts (mf, cnt, w1) = (mf @ items, cnt', w')"
      "length items = length posts" "length news = length posts"
      "list_all (\<lambda>i. fi_author_did i = followee_did f \<and> followeeDid (fi_metadata i) = followee_did f) items"
      "list_all (\<lambda>x. ps_author_did x = followee_did f) news"
      "recorded r w1 w' news"
      using addPosts_effect [OF len, of up r "followee_did f" "mahoot_number f" cnt w1] by blast
    have out: "outcome (processFollowee up r pvt pts f (mf, w)) = (mf @ items, w')"
      using False ap(1)
      by (simp add: processFollowee_def Let_def case_prod_beta cnt_def [symmetric]
          toShow_def [symmetric] unviewed_def [symmetric] posts_def [symmetric] w1_def [symmetric])
    have rec: "recorded r w w' ([] @ news)"
      by (rule recorded_trans [OF _ ap(6)]) (simp add: w1_def recorded_shuffle)
    have bound: "int (length news) \<le> toShow"
      using lp pos ap(3) by linarith
    have "allowance pvt f = max 0 (mahoot_number f - int cnt)"
      using False by (simp add: allowance_def cnt_def)
    then have "int (length news) \<le> allowance pvt f"
      using bound pos by linarith
    moreover have "int (length mf) + int (length news) \<le> max pts (int (length mf))"
      using bound pos by linarith
    ultimately show ?thesis
      using out ap rec by (intro exI [of _ items] exI [of _ news] exI [of _ w']) simp
  qed
qed

lemma allowance_nonneg: "0 \<le> allowance pvt f"
  by (simp add: allowance_def)

lemma sum_allowance_nonneg: "0 \<le> sum_list (map (allowance pvt) fs)"
  by (rule sum_list_nonneg) (auto simp: allowance_nonneg)

lemma filter_author_all:
  "list_all (\<lambda>x. ps_author_did x = a) news \<Longrightarrow>
   filter (\<lambda>x. ps_author_did x = F) news = (if a = F then news else [])"
  by (induction news) auto

lemma processFollowees_effect:
  "\<exists>items news w'.
      processFollowees up r pvt pts fs (mf, w) = (mf @ items, w')
      \<and> length items = length news
      \<and> list_all (\<lambda>i. followeeDid (fi_metadata i) \<in> followee_did ` set fs) items
      \<and> recorded r w w' news
      \<and> (\<forall>F. int (length (filter (\<lambda>x. ps_author_did x = F) news))
                \<le> sum_list (map (allowance pvt) (filter (\<lambda>f. followee_did f = F) fs)))
      \<and> int (length mf) + int (length news) \<le> max pts (int (length mf))"
proof (induction fs arbitrary: mf w)
  case Nil
  show ?case
    by (intro exI [of _ "[]"] exI [of _ w]) (simp add: recorded_refl)
next
  case (Cons f fs)
  obtain items1 news1 w1 where st:
    "outcome (processFollowee up r pvt pts f (mf, w)) = (mf @ items1, w1)"
    "length items1 = length news1"
    "list_all (\<lambda>i. fi_author_did i = followee_did f \<and> followeeDid (fi_metadata i) = followee_did f) items1"
    "list_all (\<lambda>x. ps_author_did x = followee_did f) news1"
    "recorded r w w1 news1"
    "int (length news1) \<le> allowance pvt f"
    "int (length mf) + int (length news1) \<le> max pts (int (length mf))"
    using processFollowee_effect [of up r pvt pts f mf w] by blast
  have it1: "list_all (\<lambda>i. followeeDid (fi_metadata i) \<in> followee_did ` set (f # fs)) items1"
    using st(3) by (auto simp: list_all_iff)
  have n1: "int (length (filter (\<lambda>x. ps_author_did x = F) news1))
              \<le> sum_list (map (allowance pvt) (filter (\<lambda>g. followee_did g = F) [f]))" for F
    using st(6) by (simp add: filter_author_all [OF st(4)] allowance_nonneg)
  show ?case
  proof (cases "processFollowee up r pvt pts f (mf, w)")
    case (Break st')
    with st(1) have res: "processFollowees up r pvt pts (f # fs) (mf, w) = (mf @ items1, w1)"
      by simp
    have "int (length (filter (\<lambda>x. ps_author_did x = F) news1))
            \<le> sum_list (map (allowance pvt) (filter (\<lambda>g. followee_did g = F) (f # fs)))" for F
      using n1 [of F] sum_allowance_nonneg [of pvt "filter (\<lambda>g. followee_did g = F) fs"]
      by (simp split: if_splits)
    with res st it1 show ?thesis
      by (intro exI [of _ items1] exI [of _ news1] exI [of _ w1]) simp
  next
    case (Next st')
    with st(1) have res: "processFollowees up r pvt pts (f # fs) (mf, w) =
                            processFollowees up r pvt pts fs (mf @ items1, w1)"
      by simp
    obtain items2 news2 w2 where ih:
      "processFollowees up r pvt pts fs (mf @ items1, w1) = ((mf @ items1) @ items2, w2)"
      "length items2 = length news2"
      "list_all (\<lambda>i. followeeDid (fi_metadata i) \<in> followee_did ` set fs) items2"
      "recorded r w1 w2 news2"
      "\<forall>F. int (length (filter (\<lambda>x. ps_author_did x = F) news2))
                \<le> sum_list (map (allowance pvt) (filter (\<lambda>f. followee_did f = F) fs))"
      "int (length (mf @ items1)) + int (length news2) \<le> max pts (int (length (mf @ items1)))"
      using Cons.IH [of "mf @ items1" w1] by blast
    have it2: "list_all (\<lambda>i. followeeDid (fi_metadata i) \<in> followee_did ` set (f # fs)) items2"
      using ih(3) by (auto simp: list_all_iff)
    have "int (length (filter (\<lambda>x. ps_author_did x = F) (news1 @ news2)))
            \<le> sum_list (map (allowance pvt) (filter (\<lambda>g. followee_did g = F) (f # fs)))" for F
      using n1 [of F] ih(5) [rule_format, of F] by (simp split: if_splits)
    moreover have "int (length mf) + int (length (news1 @ news2)) \<le> max pts (int (length mf))"
      using st(7) ih(6) st(2) by simp
    ultimately show ?thesis
      using res ih(1,2) st(2) it1 it2 recorded_trans [OF st(5) ih(4)]
      by (intro exI [of _ "items1 @ items2"] exI [of _ "news1 @ news2"] exI [of _ w2]) simp
  qed
qed

lemma conflicts_daily_stats:
  "conflicts daily_stats_unique \<lparr>ds_user_did = u, date = day, total_posts_viewed = t, followee_count = c\<rparr> rows
     \<longleftrightarrow> find (\<lambda>r. ds_user_did r = u \<and> date r = day) rows \<noteq> None"
  by (auto simp: conflicts_def daily_stats_unique_def list_ex_iff find_None_iff')

lemma find_map_same_key:
  "find (\<lambda>r. ds_user_did r = u \<and> date r = day)
     (map (\<lambda>r. if ds_user_did r = u \<and> date r = day
                then r\<lparr>total_posts_viewed := t, followee_count := c\<rparr> else r) rows)
   = map_option (\<lambda>r. r\<lparr>total_posts_viewed := t, followee_count := c\<rparr>)
       (find (\<lambda>r. ds_user_did r = u \<and> date r = day) rows)"
  by (induction rows) auto

lemma find_map_other_key:
  "(u', day') \<noteq> (u, day) \<Longrightarrow>
   find (\<lambda>r. ds_user_did r = u' \<and> date r = day')
     (map (\<lambda>r. if ds_user_did r = u \<and> date r = day
                then r\<lparr>total_posts_viewed := t, followee_count := c\<rparr> else r) rows)
   = find (\<lambda>r. ds_user_did r = u' \<and> date r = day') rows"
  by (induction rows) auto

lemma updateDailyStats_effect:
  "\<exists>row w'. updateDailyStats w u day t c = Inr (row, w')
     \<and> post (db w') = post (db w)
     \<and> user_preferences (db w') = user_preferences (db w)
     \<and> followee_relationships (db w') = followee_relationships (db w)
     \<and> post_statistics (db w') = post_statistics (db w)
     \<and> clock w' = clock w \<and> clock_reads w' = Suc (clock_reads w)
     \<and> (\<exists>stored. dailyStatOf (db w') u day = Some stored \<and> total_posts_viewed stored = t
                   \<and> followee_count stored = c)
     \<and> (\<forall>u' day'. (u', day') \<noteq> (u, day) \<longrightarrow> dailyStatOf (db w') u' day' = dailyStatOf (db w) u' day')"
proof (cases "find (\<lambda>r. ds_user_did r = u \<and> date r = day) (daily_stats (db w))")
  case None
  then show ?thesis
    by (simp add: updateDailyStats_def Let_def case_prod_beta conflicts_daily_stats dailyStatOf_def
        find_append split: option.splits)
next
  case (Some old)
  then show ?thesis
    by (simp add: updateDailyStats_def Let_def case_prod_beta conflicts_daily_stats dailyStatOf_def
        find_map_same_key find_map_other_key)
qed

lemma sum_list_filter_sortBy:
  fixes g :: "'a \<Rightarrow> int"
  shows "sum_list (map g (filter P (sortBy cmp xs))) = sum_list (map g (filter P xs))"
proof -
  have "mset (map g (filter P (sortBy cmp xs))) = mset (map g (filter P xs))"
    by simp
  then have "sum_mset (mset (map g (filter P (sortBy cmp xs)))) = sum_mset (mset (map g (filter P xs)))"
    by (simp only:)
  then show ?thesis
    by (simp only: sum_mset_sum_list)
qed

lemma handler_served:
  assumes "r \<noteq> []"
    and "getUserFollowees w r \<noteq> []"
    and "up = fst (getOrCreateUserPreferences w r)"
    and "pvt = viewsOn (db w) r (isoDate (clock w (Suc (clock_reads w))))"
    and "int (length pvt) < daily_post_limit up"
    and "pts = min (daily_post_limit up - int (length pvt)) (limitOrDefault (limit params))"
    and "w3 = snd (new_Date (snd (new_Date (snd (getOrCreateUserPreferences w r)))))"
    and "processFollowees up r pvt pts
           (sortBy (\<lambda>a b. mahoot_number b - mahoot_number a) (getUserFollowees w r)) ([], w3) = (mf, w4)"
    and "updateDailyStats w4 r (isoDate (clock w (Suc (Suc (clock_reads w)))))
           (int (length pvt) + int (length mf)) (int (length (getUserFollowees w r))) = Inr (row, w5)"
  shows "\<exists>out w'. handler gt w params (Some r) = Inr (out, w')
           \<and> feed out = map toSkeleton (sortBy (byRecency gt) mf)
           \<and> metadata out \<noteq> None \<and> (mf = [] \<longrightarrow> cursor out = None)
           \<and> db w' = db w5 \<and> clock w' = clock w5 \<and> clock_reads w5 \<le> clock_reads w'"
proof -
  have pv: "getPostsViewedToday (snd (getOrCreateUserPreferences w r)) r =
              (pvt, snd (new_Date (snd (getOrCreateUserPreferences w r))))"
    by (simp add: getPostsViewedToday_eq assms(4) viewsOn_def getOrCreate_db getOrCreate_world)
  have today: "fst (new_Date (snd (new_Date (snd (getOrCreateUserPreferences w r))))) =
                 clock w (Suc (Suc (clock_reads w)))"
    by (simp add: getOrCreate_world)
  show ?thesis
    unfolding handler_def
    using assms(1,2,5)
    by (simp add: Let_def case_prod_beta pv getOrCreate_world assms(3) [symmetric]
        assms(6) [symmetric] assms(7) [symmetric] assms(8) assms(9))
qed

lemma handler_effect:
  assumes "r \<noteq> []"
    and "up = fst (getOrCreateUserPreferences w r)"
    and "pvt = viewsOn (db w) r (isoDate (clock w (Suc (clock_reads w))))"
    and "today = isoDate (clock w (Suc (Suc (clock_reads w))))"
    and "pts = min (daily_post_limit up - int (length pvt)) (limitOrDefault (limit params))"
  shows "\<exists>out w' news. handler gt w params (Some r) = Inr (out, w')
      \<and> post_statistics (db w') = post_statistics (db w) @ news
      \<and> list_all (\<lambda>x. viewer_did x = r
                      \<and> (\<exists>k. Suc (clock_reads w) < k \<and> k < clock_reads w' \<and> viewed_at x = clock w k)) news
      \<and> length (feed out) = length news
      \<and> (\<forall>F. int (length (filter (\<lambda>x. ps_author_did x = F) news))
                \<le> sum_list (map (allowance pvt) (filter (\<lambda>f. followee_did f = F) (getUserFollowees w r))))
      \<and> int (length news) \<le> max pts 0
      \<and> post (db w') = post (db w)
      \<and> followee_relationships (db w') = followee_relationships (db w)
      \<and> user_preferences (db w') = user_preferences (db (snd (getOrCreateUserPreferences w r)))
      \<and> clock w' = clock w \<and> clock_reads w < clock_reads w'
      \<and> (if getUserFollowees w r = [] \<or> daily_post_limit up \<le> int (length pvt)
          then out = emptyPage \<and> news = [] \<and> daily_stats (db w') = daily_stats (db w)
          else metadata out \<noteq> None \<and> (news = [] \<longrightarrow> cursor out = None)
               \<and> (\<exists>stored. dailyStatOf (db w') r today = Some stored
                      \<and> total_posts_viewed stored = int (length pvt) + int (length news))
               \<and> (\<forall>u' d'. (u', d') \<noteq> (r, today)
                      \<longrightarrow> dailyStatOf (db w') u' d' = dailyStatOf (db w) u' d'))"
proof -
  let ?w1 = "snd (getOrCreateUserPreferences w r)"
  let ?fs = "getUserFollowees w r"
  show ?thesis
  proof (cases "?fs = [] \<or> daily_post_limit up \<le> int (length pvt)")
    case True
    then consider "?fs = []" | "?fs \<noteq> []" "daily_post_limit up \<le> int (length pvt)"
      by blast
    then show ?thesis
    proof cases
      case 1
      with assms(1) have "handler gt w params (Some r) = Inr (emptyPage, ?w1)"
        by (simp add: handler_without_followees)
      with True show ?thesis
        by (intro exI [of _ emptyPage] exI [of _ ?w1] exI [of _ "[]"])
           (simp add: getOrCreate_db getOrCreate_world emptyPage_def sum_allowance_nonneg)
    next
      case 2
      with assms(1,2,3) have "handler gt w params (Some r) = Inr (emptyPage, snd (new_Date ?w1))"
        by (simp add: handler_at_limit)
      with True show ?thesis
        by (intro exI [of _ emptyPage] exI [of _ "snd (new_Date ?w1)"] exI [of _ "[]"])
           (simp add: getOrCreate_db getOrCreate_world emptyPage_def sum_allowance_nonneg)
    qed
  next
    case False
    let ?w3 = "snd (new_Date (snd (new_Date ?w1)))"
    obtain items news w4 where pf:
      "processFollowees up r pvt pts (sortBy (\<lambda>a b. mahoot_number b - mahoot_number a) ?fs) ([], ?w3)
         = ([] @ items, w4)"
      "length items = length news"
      "recorded r ?w3 w4 news"
      "\<forall>F. int (length (filter (\<lambda>x. ps_author_did x = F) news))
            \<le> sum_list (map (allowance pvt) (filter (\<lambda>f. followee_did f = F)
                  (sortBy (\<lambda>a b. mahoot_number b - mahoot_number a) ?fs)))"
      "int (length ([] :: MahootFeedItem list)) + int (length news) \<le> max pts (int (length ([] :: MahootFeedItem list)))"
      using processFollowees_effect [of up r pvt pts
               "sortBy (\<lambda>a b. mahoot_number b - mahoot_number a) ?fs" "[]" ?w3]
      by blast
    obtain row w5 where ud:
      "updateDailyStats w4 r today (int (length pvt) + int (length items)) (int (length ?fs)) = Inr (row, w5)"
      "post (db w5) = post (db w4)"
      "user_preferences (db w5) = user_preferences (db w4)"
      "followee_relationships (db w5) = followee_relationships (db w4)"
      "post_statistics (db w5) = post_statistics (db w4)"
      "clock w5 = clock w4" "clock_reads w5 = Suc (clock_reads w4)"
      "\<exists>stored. dailyStatOf (db w5) r today = Some stored
           \<and> total_posts_viewed stored = int (length pvt) + int (length items)
           \<and> followee_count stored = int (length ?fs)"
      "\<forall>u' day'. (u', day') \<noteq> (r, today) \<longrightarrow> dailyStatOf (db w5) u' day' = dailyStatOf (db w4) u' day'"
      using updateDailyStats_effect [of w4 r today "int (length pvt) + int (length items)" "int (length ?fs)"]
      by blast
    from False have served: "?fs \<noteq> []" "int (length pvt) < daily_post_limit up"
      by auto
    obtain out w' where h:
      "handler gt w params (Some r) = Inr (out, w')"
      "feed out = map toSkeleton (sortBy (byRecency gt) items)"
      "metadata out \<noteq> None" "items = [] \<longrightarrow> cursor out = None"
      "db w' = db w5" "clock w' = clock w5" "clock_reads w5 \<le> clock_reads w'"
      using handler_served [OF assms(1) served(1) assms(2,3) served(2) assms(5) refl
              pf(1) [simplified] ud(1) [unfolded assms(4)], of gt]
      by blast
    have rec: "post_statistics (db w4) = post_statistics (db w) @ news"
      "post (db w4) = post (db w)"
      "user_preferences (db w4) = user_preferences (db ?w1)"
      "followee_relationships (db w4) = followee_relationships (db w)"
      "daily_stats (db w4) = daily_stats (db w)"
      "clock w4 = clock w"
      using pf(3) by (simp_all add: recorded_def getOrCreate_db getOrCreate_world)
    have reads: "Suc (Suc (Suc (clock_reads w))) \<le> clock_reads w4" "clock_reads w4 < clock_reads w'"
      using pf(3) ud(7) h(7) by (simp_all add: recorded_def getOrCreate_world)
    have stamps: "list_all (\<lambda>x. viewer_did x = r
                    \<and> (\<exists>k. Suc (clock_reads w) < k \<and> k < clock_reads w' \<and> viewed_at x = clock w k)) news"
    proof -
      have a: "\<forall>x \<in> set news. viewer_did x = r \<and>
                 (\<exists>k. Suc (Suc (Suc (clock_reads w))) \<le> k \<and> k < clock_reads w4 \<and> viewed_at x = clock w k)"
        using pf(3) by (simp add: recorded_def list_all_iff getOrCreate_world)
      have "viewer_did x = r \<and> (\<exists>k. Suc (clock_reads w) < k \<and> k < clock_reads w' \<and> viewed_at x = clock w k)"
        if "x \<in> set news" for x
      proof -
        from a that obtain k where "viewer_did x = r" "Suc (Suc (Suc (clock_reads w))) \<le> k"
          "k < clock_reads w4" "viewed_at x = clock w k" by blast
        with reads(2) show ?thesis by (intro conjI exI [of _ k]) simp_all
      qed
      then show ?thesis by (simp add: list_all_iff)
    qed
    have later: "clock_reads w < clock_reads w'"
      using reads by simp
    have ds: "dailyStatOf (db w4) u' d' = dailyStatOf (db w) u' d'" for u' d'
      by (simp add: dailyStatOf_def rec(5))
    have sums: "\<forall>F. int (length (filter (\<lambda>x. ps_author_did x = F) news))
            \<le> sum_list (map (allowance pvt) (filter (\<lambda>f. followee_did f = F) ?fs))"
      using pf(4) by (simp add: sum_list_filter_sortBy)
    have len: "length (feed out) = length news"
      by (simp add: h(2) pf(2))
    have e: "items = [] \<longleftrightarrow> news = []"
      using pf(2) by (metis length_0_conv)
    have st: "\<exists>stored. dailyStatOf (db w') r today = Some stored
                \<and> total_posts_viewed stored = int (length pvt) + int (length news)"
      using ud(8) h(5) pf(2) by auto
    have oth: "\<forall>u' d'. (u', d') \<noteq> (r, today)
                \<longrightarrow> dailyStatOf (db w') u' d' = dailyStatOf (db w) u' d'"
      using ud(9) ds h(5) by simp
    have cur: "news = [] \<longrightarrow> cursor out = None"
      using h(4) e by simp
    have frame: "post_statistics (db w') = post_statistics (db w) @ news"
      "post (db w') = post (db w)"
      "followee_relationships (db w') = followee_relationships (db w)"
      "user_preferences (db w') = user_preferences (db ?w1)"
      "clock w' = clock w"
      using rec ud(2-6) h(5,6) by simp_all
    have cap: "int (length news) \<le> max pts 0"
      using pf(5) by simp
    show ?thesis
      using False h(1,3) len stamps sums cap st oth cur frame later
      by (intro exI [of _ out] exI [of _ w'] exI [of _ news]) simp
  qed
qed

lemma handler_Inr_requester:
  "handler gt w params req = Inr (out, w') \<Longrightarrow> \<exists>r. req = Some r \<and> r \<noteq> []"
  by (cases req) (auto simp: handler_def split: if_splits)







lemma isoDate_in_day:
  assumes "dayStart D \<le> t" and "t < dayLastMs D"
  shows "isoDate t = D"
proof -
  have "t = msPerDay * D + (t - msPerDay * D)" by simp
  moreover have "0 \<le> t - msPerDay * D"
    using assms(1) by (simp add: dayStart_def mult.commute)
  moreover have "t - msPerDay * D < msPerDay"
    using assms(2) by (simp add: dayLastMs_def msPerDay_def)
  ultimately show ?thesis
    unfolding isoDate_def by (rule int_div_pos_eq)
qed

lemma same_day:
  "dayStart D \<le> t \<Longrightarrow> t < dayLastMs D \<Longrightarrow> dayStart D0 \<le> t \<Longrightarrow> t < dayLastMs D0 \<Longrightarrow> D = D0"
  by (metis isoDate_in_day)

lemma viewsOn_append:
  assumes "post_statistics d' = post_statistics d @ news"
    and "list_all (\<lambda>x. viewer_did x = r \<and> dayStart D0 \<le> viewed_at x \<and> viewed_at x < dayLastMs D0) news"
  shows "viewsOn d' u day = viewsOn d u day @ (if u = r \<and> day = D0 then news else [])"
proof -
  let ?P = "\<lambda>x. viewer_did x = u \<and> dayStart day \<le> viewed_at x \<and> viewed_at x < dayLastMs day"
  have all: "\<forall>x \<in> set news. viewer_did x = r \<and> dayStart D0 \<le> viewed_at x \<and> viewed_at x < dayLastMs D0"
    using assms(2) by (simp add: list_all_iff)
  have "filter ?P news = (if u = r \<and> day = D0 then news else [])"
  proof (cases "u = r \<and> day = D0")
    case True
    with all have "\<forall>x \<in> set news. ?P x" by blast
    then have "filter ?P news = news" by (rule filter_True)
    with True show ?thesis by simp
  next
    case False
    have "\<not> ?P x" if "x \<in> set news" for x
    proof
      assume p: "?P x"
      from all that have x: "viewer_did x = r" "dayStart D0 \<le> viewed_at x" "viewed_at x < dayLastMs D0"
        by blast+
      from p x have "u = r" by simp
      moreover from p x have "day = D0" by (blast intro: same_day)
      ultimately show False using False by simp
    qed
    then have "filter ?P news = []" by (simp add: filter_empty_conv)
    with False show ?thesis by auto
  qed
  then show ?thesis
    by (simp add: viewsOn_def assms(1))
qed

lemma filter_unique_followee:
  "distinct (map followee_did fs) \<Longrightarrow> f \<in> set fs \<Longrightarrow>
   filter (\<lambda>g. followee_did g = followee_did f) fs = [f]"
proof (induction fs)
  case Nil
  then show ?case by simp
next
  case (Cons g fs)
  show ?case
  proof (cases "g = f")
    case True
    with Cons.prems(1) have "\<forall>h \<in> set fs. followee_did h \<noteq> followee_did f"
      by (force simp: image_iff)
    then have "filter (\<lambda>g. followee_did g = followee_did f) fs = []"
      by (simp add: filter_empty_conv)
    with True show ?thesis by simp
  next
    case False
    with Cons.prems have "f \<in> set fs" "followee_did g \<noteq> followee_did f"
      by auto
    with Cons show ?thesis by simp
  qed
qed

lemma dayStart_isoDate_le: "dayStart (isoDate t) \<le> t"
proof -
  have a: "msPerDay * (t div msPerDay) + t mod msPerDay = t"
    by (rule mult_div_mod_eq)
  have b: "0 \<le> t mod msPerDay"
    by (simp add: msPerDay_def)
  have "msPerDay * (t div msPerDay) \<le> t"
    using a b by linarith
  then show ?thesis
    by (simp add: dayStart_def isoDate_def mult.commute)
qed

lemma isoDate_lt_next: "t < dayStart (isoDate t) + msPerDay"
proof -
  have a: "msPerDay * (t div msPerDay) + t mod msPerDay = t"
    by (rule mult_div_mod_eq)
  have b: "t mod msPerDay < msPerDay"
    by (simp add: msPerDay_def)
  have "t < msPerDay * (t div msPerDay) + msPerDay"
    using a b by linarith
  then show ?thesis
    by (simp add: dayStart_def isoDate_def mult.commute)
qed

lemma dayStart_next: "D < D' \<Longrightarrow> dayStart D + msPerDay \<le> dayStart D'"
  by (simp add: dayStart_def msPerDay_def)

lemma dayLastMs_lt_next: "dayLastMs D < dayStart D + msPerDay"
  by (simp add: dayStart_def dayLastMs_def msPerDay_def)

lemma length_filter_imp:
  "(\<And>x. x \<in> set xs \<Longrightarrow> P x \<Longrightarrow> Q x) \<Longrightarrow> length (filter P xs) \<le> length (filter Q xs)"
  by (induction xs) auto

lemma isoDate_window:
  assumes "t \<noteq> dayLastMs D"
  shows "isoDate t = D \<longleftrightarrow> dayStart D \<le> t \<and> t < dayLastMs D"
proof
  assume d: "isoDate t = D"
  have "dayStart D \<le> t" "t < dayStart D + msPerDay"
    using dayStart_isoDate_le [of t] isoDate_lt_next [of t] by (simp_all add: d)
  with assms show "dayStart D \<le> t \<and> t < dayLastMs D"
    by (simp add: dayStart_def dayLastMs_def msPerDay_def)
next
  assume "dayStart D \<le> t \<and> t < dayLastMs D"
  then show "isoDate t = D" by (simp add: isoDate_in_day)
qed

lemma handler_quota_step:
  assumes "distinct (map followee_did (getUserFollowees w U))"
    and "f \<in> set (getUserFollowees w U)"
    and "0 \<le> mahoot_number f"
    and "mono (clock w)"
    and "post_statistics (db w) = base @ c"
    and "\<forall>x \<in> set c. viewed_at x \<le> clock w (clock_reads w)"
    and "\<forall>D. int (length (filter (\<lambda>x. viewer_did x = U \<and> ps_author_did x = followee_did f
                                       \<and> dayStart D \<le> viewed_at x \<and> viewed_at x < dayLastMs D) c))
              \<le> mahoot_number f"
    and "handler gt w params req = Inr (out, w')"
  shows "\<exists>news. post_statistics (db w') = base @ c @ news
           \<and> followee_relationships (db w') = followee_relationships (db w)
           \<and> clock w' = clock w
           \<and> (\<forall>x \<in> set (c @ news). viewed_at x \<le> clock w' (clock_reads w'))
           \<and> (\<forall>D. int (length (filter (\<lambda>x. viewer_did x = U \<and> ps_author_did x = followee_did f
                                       \<and> dayStart D \<le> viewed_at x \<and> viewed_at x < dayLastMs D) (c @ news)))
                    \<le> mahoot_number f)
           \<and> list_all (\<lambda>x. \<exists>k. viewed_at x = clock w k) news
           \<and> (mahoot_number f = 0 \<longrightarrow>
                 filter (\<lambda>x. viewer_did x = U \<and> ps_author_did x = followee_did f) news = [])"
proof -
  obtain r where r: "req = Some r" "r \<noteq> []"
    using handler_Inr_requester [OF assms(8)] by blast
  define up where "up = fst (getOrCreateUserPreferences w r)"
  define t1 where "t1 = clock w (Suc (clock_reads w))"
  define D0 where "D0 = isoDate t1"
  define pvt where "pvt = viewsOn (db w) r (isoDate (clock w (Suc (clock_reads w))))"
  define pts where "pts = min (daily_post_limit up - int (length pvt)) (limitOrDefault (limit params))"
  have pvt: "pvt = viewsOn (db w) r D0"
    by (simp add: pvt_def D0_def t1_def)
  obtain out1 w1 news where h:
    "handler gt w params (Some r) = Inr (out1, w1)"
    "post_statistics (db w1) = post_statistics (db w) @ news"
    "list_all (\<lambda>x. viewer_did x = r
                \<and> (\<exists>k. Suc (clock_reads w) < k \<and> k < clock_reads w1 \<and> viewed_at x = clock w k)) news"
    "\<forall>F. int (length (filter (\<lambda>x. ps_author_did x = F) news))
          \<le> sum_list (map (allowance pvt) (filter (\<lambda>f. followee_did f = F) (getUserFollowees w r)))"
    "followee_relationships (db w1) = followee_relationships (db w)"
    "clock w1 = clock w" "clock_reads w < clock_reads w1"
    using handler_effect [OF r(2) up_def pvt_def refl pts_def, of gt] by blast
  from h(1) assms(8) r(1) have eq: "w1 = w'" by simp
  let ?F = "followee_did f"
  let ?Q = "mahoot_number f"
  let ?on = "\<lambda>D x. viewer_did x = U \<and> ps_author_did x = ?F
                     \<and> dayStart D \<le> viewed_at x \<and> viewed_at x < dayLastMs D"
  have viewer: "\<forall>x \<in> set news. viewer_did x = r"
    using h(3) by (simp add: list_all_iff)
  have stamps: "list_all (\<lambda>x. \<exists>k. viewed_at x = clock w k) news"
    using h(3) by (auto simp: list_all_iff)
  have late: "t1 \<le> viewed_at x \<and> viewed_at x \<le> clock w (clock_reads w1)" if "x \<in> set news" for x
  proof -
    from h(3) that obtain k where k: "Suc (clock_reads w) < k" "k < clock_reads w1" "viewed_at x = clock w k"
      by (auto simp: list_all_iff)
    have "clock w (Suc (clock_reads w)) \<le> clock w k" "clock w k \<le> clock w (clock_reads w1)"
      using k(1,2) by (auto intro: monoD [OF assms(4)])
    with k(3) show ?thesis by (simp add: t1_def)
  qed
  have early: "viewed_at x \<le> t1 \<and> viewed_at x \<le> clock w (clock_reads w1)" if "x \<in> set c" for x
  proof -
    have "clock w (clock_reads w) \<le> clock w (Suc (clock_reads w))"
      "clock w (clock_reads w) \<le> clock w (clock_reads w1)"
      using h(7) by (auto intro: monoD [OF assms(4)])
    with assms(6) that show ?thesis by (auto simp: t1_def)
  qed
  have future: "\<forall>x \<in> set (c @ news). viewed_at x \<le> clock w' (clock_reads w')"
    using late early eq h(6) by auto
  have stats: "post_statistics (db w') = base @ c @ news"
    using h(2) eq assms(5) by simp
  show ?thesis
  proof (cases "U = r")
    case False
    with viewer have none: "filter (?on D) news = []" for D
      by (auto simp: filter_empty_conv)
    from False viewer have "filter (\<lambda>x. viewer_did x = U \<and> ps_author_did x = ?F) news = []"
      by (auto simp: filter_empty_conv)
    with none assms(7) stats future stamps h(5,6) eq show ?thesis
      by (intro exI [of _ news]) simp
  next
    case True
    have one: "filter (\<lambda>g. followee_did g = ?F) (getUserFollowees w r) = [f]"
      using filter_unique_followee [OF assms(1,2)] True by simp
    have bound: "int (length (filter (\<lambda>x. ps_author_did x = ?F) news)) \<le> allowance pvt f"
      using h(4) [rule_format, of ?F] by (simp add: one)
    have "filter (\<lambda>x. ps_author_did x = ?F) pvt
            = filter (?on D0) base @ filter (?on D0) c"
      by (simp add: pvt viewsOn_def assms(5) True conj_commute conj_left_commute)
    then have cnt: "length (filter (?on D0) c) \<le> length (filter (\<lambda>x. ps_author_did x = ?F) pvt)"
      by simp
    have alw: "allowance pvt f \<le> max 0 (?Q - int (length (filter (?on D0) c)))" "allowance pvt f \<le> ?Q"
      using cnt assms(3) by (auto simp: allowance_def)
    have newsD: "length (filter (?on D) news) \<le> length (filter (\<lambda>x. ps_author_did x = ?F) news)" for D
      by (rule length_filter_imp) simp
    have t1: "dayStart D0 \<le> t1" "t1 < dayStart D0 + msPerDay"
      unfolding D0_def by (rule dayStart_isoDate_le, rule isoDate_lt_next)
    have q: "int (length (filter (?on D) (c @ news))) \<le> ?Q" for D
    proof -
      consider "D = D0" | "D < D0" | "D0 < D" by linarith
      then show ?thesis
      proof cases
        case 1
        have "int (length (filter (?on D0) news)) \<le> max 0 (?Q - int (length (filter (?on D0) c)))"
          using newsD [of D0] bound alw(1) by linarith
        moreover have "int (length (filter (?on D0) c)) \<le> ?Q"
          using assms(7) by blast
        ultimately show ?thesis
          unfolding 1 by simp
      next
        case 2
        have "\<not> ?on D x" if "x \<in> set news" for x
          using late [OF that] t1(1) dayStart_next [OF 2] dayLastMs_lt_next [of D] by linarith
        then have "filter (?on D) news = []"
          by (simp add: filter_empty_conv)
        with assms(7) show ?thesis by simp
      next
        case 3
        have "\<not> ?on D x" if "x \<in> set c" for x
          using early [OF that] t1(2) dayStart_next [OF 3] by linarith
        then have "filter (?on D) c = []"
          by (simp add: filter_empty_conv)
        moreover have "int (length (filter (?on D) news)) \<le> ?Q"
          using newsD [of D] bound alw(2) by linarith
        ultimately show ?thesis by simp
      qed
    qed
    have z: "filter (\<lambda>x. viewer_did x = U \<and> ps_author_did x = ?F) news = []" if "?Q = 0"
    proof -
      from bound that have "filter (\<lambda>x. ps_author_did x = ?F) news = []"
        by (simp add: allowance_def)
      then show ?thesis
        by (auto simp: filter_empty_conv)
    qed
    from q z stats future stamps h(5,6) eq show ?thesis
      by (intro exI [of _ news]) simp
  qed
qed

lemma generateFeeds_quota:
  assumes "distinct (map followee_did (getUserFollowees w U))"
    and "f \<in> set (getUserFollowees w U)"
    and "0 \<le> mahoot_number f"
    and "mono (clock w)"
    and "post_statistics (db w) = base @ c"
    and "\<forall>x \<in> set c. viewed_at x \<le> clock w (clock_reads w)"
    and "\<forall>D. int (length (filter (\<lambda>x. viewer_did x = U \<and> ps_author_did x = followee_did f
                                       \<and> dayStart D \<le> viewed_at x \<and> viewed_at x < dayLastMs D) c))
              \<le> mahoot_number f"
  shows "\<exists>created. post_statistics (db (generateFeeds gt calls w)) = base @ c @ created
           \<and> list_all (\<lambda>x. \<exists>k. viewed_at x = clock w k) created
           \<and> (\<forall>D. int (length (filter (\<lambda>x. viewer_did x = U \<and> ps_author_did x = followee_did f
                                       \<and> dayStart D \<le> viewed_at x \<and> viewed_at x < dayLastMs D) (c @ created)))
                    \<le> mahoot_number f)
           \<and> (mahoot_number f = 0 \<longrightarrow>
                 filter (\<lambda>x. viewer_did x = U \<and> ps_author_did x = followee_did f) created = [])"
  using assms
proof (induction calls arbitrary: w c)
  case Nil
  then show ?case by simp
next
  case (Cons call calls)
  obtain params req where call: "call = (params, req)" by (cases call)
  show ?case
  proof (cases "handler gt w params req")
    case (Inl e)
    with call Cons.IH [OF Cons.prems] show ?thesis by simp
  next
    case (Inr res)
    obtain out w1 where res: "res = (out, w1)" by (cases res)
    with Inr have h: "handler gt w params req = Inr (out, w1)" by simp
    obtain news where st:
      "post_statistics (db w1) = base @ c @ news"
      "followee_relationships (db w1) = followee_relationships (db w)"
      "clock w1 = clock w"
      "\<forall>x \<in> set (c @ news). viewed_at x \<le> clock w1 (clock_reads w1)"
      "\<forall>D. int (length (filter (\<lambda>x. viewer_did x = U \<and> ps_author_did x = followee_did f
                                       \<and> dayStart D \<le> viewed_at x \<and> viewed_at x < dayLastMs D) (c @ news)))
                    \<le> mahoot_number f"
      "list_all (\<lambda>x. \<exists>k. viewed_at x = clock w k) news"
      "mahoot_number f = 0 \<longrightarrow>
         filter (\<lambda>x. viewer_did x = U \<and> ps_author_did x = followee_did f) news = []"
      using handler_quota_step [OF Cons.prems h] by blast
    have fs: "getUserFollowees w1 U = getUserFollowees w U"
      by (simp add: getUserFollowees_def st(2))
    have p1: "distinct (map followee_did (getUserFollowees w1 U))" "f \<in> set (getUserFollowees w1 U)"
      "mono (clock w1)" "post_statistics (db w1) = base @ (c @ news)"
      using Cons.prems(1,2,4) st(1,3) by (simp_all add: fs)
    obtain created where ih:
      "post_statistics (db (generateFeeds gt calls w1)) = base @ (c @ news) @ created"
      "list_all (\<lambda>x. \<exists>k. viewed_at x = clock w1 k) created"
      "\<forall>D. int (length (filter (\<lambda>x. viewer_did x = U \<and> ps_author_did x = followee_did f
                                       \<and> dayStart D \<le> viewed_at x \<and> viewed_at x < dayLastMs D)
                            ((c @ news) @ created)))
                    \<le> mahoot_number f"
      "mahoot_number f = 0 \<longrightarrow>
         filter (\<lambda>x. viewer_did x = U \<and> ps_author_did x = followee_did f) created = []"
      using Cons.IH [OF p1(1,2) Cons.prems(3) p1(3,4) st(4,5)] by blast
    have run: "generateFeeds gt (call # calls) w = generateFeeds gt calls w1"
      by (simp add: call h)
    from st ih show ?thesis
      unfolding run by (intro exI [of _ "news @ created"]) simp
  qed
qed

lemma set_insertBy [simp]: "set (insertBy cmp x xs) = insert x (set xs)"
  using insertBy_mset [of cmp x xs] by (metis set_mset_add_mset_insert set_mset_mset)

lemma insertBy_quota_sorted:
  "sorted_wrt (\<lambda>a b. mahoot_number b \<le> mahoot_number a) xs \<Longrightarrow>
   sorted_wrt (\<lambda>a b. mahoot_number b \<le> mahoot_number a)
     (insertBy (\<lambda>a b. mahoot_number b - mahoot_number a) x xs)"
  by (induction xs) auto

lemma sortBy_quota_sorted:
  "sorted_wrt (\<lambda>a b. mahoot_number b \<le> mahoot_number a)
     (sortBy (\<lambda>a b. mahoot_number b - mahoot_number a) fs)"
  by (induction fs) (simp_all add: sortBy_def insertBy_quota_sorted)

lemma length_filter_sortBy: "length (filter Q (sortBy cmp xs)) = length (filter Q xs)"
proof -
  have "mset (filter Q (sortBy cmp xs)) = mset (filter Q xs)"
    by simp
  then show ?thesis
    by (metis size_mset)
qed

lemma itemsFrom_page:
  "length (itemsFrom a (map toSkeleton (sortBy cmp items)))
     = length (filter (\<lambda>i. followeeDid (fi_metadata i) = a) items)"
proof -
  have "length (itemsFrom a (map toSkeleton (sortBy cmp items)))
          = length (filter (\<lambda>i. followeeDid (fi_metadata i) = a) (sortBy cmp items))"
    by (simp add: itemsFrom_def filter_map comp_def toSkeleton_def)
  then show ?thesis
    by (simp add: length_filter_sortBy)
qed

lemma shuffleFrom_mset:
  "k < length xs \<or> k = 0 \<Longrightarrow> mset (fst (shuffleFrom k xs w)) = mset xs"
proof (induction k arbitrary: xs w)
  case 0
  show ?case by simp
next
  case (Suc k)
  define j where "j = fst (randomIndex (Suc k + 1) w)"
  have "j < Suc k + 1"
    by (simp add: j_def randomIndex_def)
  with Suc.prems have j: "j < length xs"
    by simp
  have sw: "mset (xs[Suc k := xs ! j, j := xs ! Suc k]) = mset xs"
    using Suc.prems j by (simp add: mset_swap)
  have "k < length (xs[Suc k := xs ! j, j := xs ! Suc k]) \<or> k = 0"
    using Suc.prems by simp
  from Suc.IH [OF this] sw show ?case
    by (simp add: Let_def case_prod_beta j_def)
qed

lemma shuffle_set [simp]: "set (fst (shuffle xs w)) = set xs"
proof -
  have "mset (fst (shuffle xs w)) = mset xs"
    unfolding shuffle_def by (rule shuffleFrom_mset) (cases xs, simp_all)
  then show ?thesis
    by (metis set_mset_mset)
qed

lemma getUnviewedPostsByAuthor_subset:
  "set (getUnviewedPostsByAuthor w v a n) \<subseteq> set (unviewedBy (db w) v a)"
  by (auto simp: getUnviewedPostsByAuthor_def sqlLimit_def unviewedBy_def dest: in_set_takeD)

lemma processFollowee_exact:
  assumes "a = min (allowance pvt f) (pts - int (length mf))"
    and "a \<le> int (length (unviewedBy (db w) r (followee_did f)))"
  shows "\<exists>items news w'.
      processFollowee up r pvt pts f (mf, w)
        = (if 0 < a \<and> pts \<le> int (length mf) + a then Break else Next) (mf @ items, w')
      \<and> int (length items) = max 0 a
      \<and> list_all (\<lambda>i. followeeDid (fi_metadata i) = followee_did f) items
      \<and> recorded r w w' news
      \<and> list_all (\<lambda>x. post_uri x \<in> uri ` set (unviewedBy (db w) r (followee_did f))) news"
proof -
  define cnt where "cnt = length (filter (\<lambda>x. ps_author_did x = followee_did f) pvt)"
  define toShow where "toShow = min (mahoot_number f - int cnt) (pts - int (length mf))"
  define unviewed where "unviewed = getUnviewedPostsByAuthor w r (followee_did f) (toShow * 3)"
  define posts where "posts = fst (shuffle (take (nat toShow) unviewed) w)"
  define w1 where "w1 = snd (shuffle (take (nat toShow) unviewed) w)"
  show ?thesis
  proof (cases "mahoot_number f = 0 \<or> mahoot_number f \<le> int cnt \<or> toShow \<le> 0")
    case True
    then have a: "a \<le> 0"
      using assms(1) by (auto simp: allowance_def cnt_def toShow_def)
    from True have "processFollowee up r pvt pts f (mf, w) = Next (mf, w)"
      by (auto simp: processFollowee_def Let_def cnt_def toShow_def)
    with a show ?thesis
      by (intro exI [of _ "[]"] exI [of _ w]) (simp add: recorded_refl)
  next
    case False
    then have al: "allowance pvt f = mahoot_number f - int cnt"
      by (simp add: allowance_def cnt_def)
    have a: "a = toShow" "0 < toShow"
      using False assms(1) al by (simp_all add: toShow_def [symmetric])
    have lu: "length unviewed = min (nat (toShow * 3)) (length (unviewedBy (db w) r (followee_did f)))"
      unfolding unviewed_def using a(2) by (intro getUnviewedPostsByAuthor_length) simp
    have "nat toShow \<le> nat (toShow * 3)" "nat toShow \<le> length (unviewedBy (db w) r (followee_did f))"
      using assms(2) a by linarith+
    then have ge: "nat toShow \<le> length unviewed"
      by (simp add: lu)
    then have ne: "unviewed \<noteq> []"
      using a(2) by auto
    have lp: "length posts = nat toShow"
      using ge by (simp add: posts_def)
    have len: "int (length mf) + int (length posts) \<le> pts"
      using a(2) lp by (simp add: toShow_def)
    obtain items news cnt' w' where ap:
      "addPosts up r (followee_did f) (mahoot_number f) pts posts (mf, cnt, w1) = (mf @ items, cnt', w')"
      "length items = length posts" "length news = length posts"
      "list_all (\<lambda>i. fi_author_did i = followee_did f \<and> followeeDid (fi_metadata i) = followee_did f) items"
      "recorded r w1 w' news"
      "map post_uri news = map uri posts"
      using addPosts_effect [OF len, of up r "followee_did f" "mahoot_number f" cnt w1] by blast
    have li: "int (length items) = toShow"
      using ap(2) lp a(2) by simp
    have out: "processFollowee up r pvt pts f (mf, w)
                 = (if pts \<le> int (length mf) + toShow then Break else Next) (mf @ items, w')"
      using False ne ap(1) li
      by (simp add: processFollowee_def Let_def case_prod_beta cnt_def [symmetric]
          toShow_def [symmetric] unviewed_def [symmetric] posts_def [symmetric] w1_def [symmetric])
    have rec: "recorded r w w' ([] @ news)"
      by (rule recorded_trans [OF _ ap(5)]) (simp add: w1_def recorded_shuffle)
    have sub: "set posts \<subseteq> set (unviewedBy (db w) r (followee_did f))"
      using getUnviewedPostsByAuthor_subset [of w r "followee_did f" "toShow * 3"]
      by (auto simp: posts_def unviewed_def dest: in_set_takeD)
    have "post_uri x \<in> uri ` set (unviewedBy (db w) r (followee_did f))" if "x \<in> set news" for x
    proof -
      from that have "post_uri x \<in> set (map post_uri news)" by simp
      then have "post_uri x \<in> uri ` set posts" by (simp add: ap(6))
      with sub show ?thesis by blast
    qed
    then have uris: "list_all (\<lambda>x. post_uri x \<in> uri ` set (unviewedBy (db w) r (followee_did f))) news"
      by (simp add: list_all_iff)
    have it: "list_all (\<lambda>i. followeeDid (fi_metadata i) = followee_did f) items"
      using ap(4) by (simp add: list_all_iff)
    from out li it rec uris a show ?thesis
      by (intro exI [of _ items] exI [of _ news] exI [of _ w']) simp
  qed
qed

lemma unviewedBy_other_author:
  assumes "post d' = post d"
    and "post_statistics d' = post_statistics d @ news"
    and "distinct (map uri (post d))"
    and "list_all (\<lambda>x. post_uri x \<in> uri ` set (unviewedBy d v a)) news"
    and "a' \<noteq> a"
  shows "unviewedBy d' v a' = unviewedBy d v a'"
proof -
  have inj: "inj_on uri (set (post d))"
    using assms(3) by (simp add: distinct_map)
  have "\<not> list_ex (\<lambda>s. post_uri s = uri p \<and> viewer_did s = v) news"
    if p: "p \<in> set (post d)" "p_author_did p = a'" for p
  proof
    assume "list_ex (\<lambda>s. post_uri s = uri p \<and> viewer_did s = v) news"
    then obtain s where s: "s \<in> set news" "post_uri s = uri p"
      by (auto simp: list_ex_iff)
    with assms(4) obtain q where q: "q \<in> set (unviewedBy d v a)" "post_uri s = uri q"
      by (auto simp: list_all_iff)
    then have "q \<in> set (post d)" "p_author_did q = a"
      by (simp_all add: unviewedBy_def)
    moreover from s(2) q(2) have "uri p = uri q" by simp
    ultimately have "p = q"
      using inj p(1) by (auto dest: inj_onD)
    with \<open>p_author_did q = a\<close> p(2) assms(5) show False by simp
  qed
  then show ?thesis
    unfolding unviewedBy_def assms(1,2)
    by (intro filter_cong [OF refl]) auto
qed


lemma handler_two_followees:
  assumes "r \<noteq> []"
    and "sortBy (\<lambda>a b. mahoot_number b - mahoot_number a) (getUserFollowees w r) = [f1, f2]"
    and "followee_did f1 \<noteq> followee_did f2"
    and "distinct (map uri (post (db w)))"
    and "up = fst (getOrCreateUserPreferences w r)"
    and "pvt = viewsOn (db w) r (isoDate (clock w (Suc (clock_reads w))))"
    and "int (length pvt) < daily_post_limit up"
    and "pts = min (daily_post_limit up - int (length pvt)) (limitOrDefault (limit params))"
    and "a1 = min (allowance pvt f1) pts"
    and "a2 = min (allowance pvt f2) (pts - max 0 a1)"
    and "a1 \<le> int (length (unviewedBy (db w) r (followee_did f1)))"
    and "a2 \<le> int (length (unviewedBy (db w) r (followee_did f2)))"
  shows "\<exists>out w'. handler gt w params (Some r) = Inr (out, w')
           \<and> int (length (itemsFrom (followee_did f1) (feed out))) = max 0 a1
           \<and> int (length (itemsFrom (followee_did f2) (feed out))) = max 0 a2"
proof -
  let ?fs = "getUserFollowees w r"
  let ?w3 = "snd (new_Date (snd (new_Date (snd (getOrCreateUserPreferences w r)))))"
  let ?today = "isoDate (clock w (Suc (Suc (clock_reads w))))"
  let ?from = "\<lambda>f i. followeeDid (fi_metadata i) = followee_did f"
  have fs: "?fs \<noteq> []"
    using assms(2) by (auto simp: sortBy_def)
  have uv: "unviewedBy (db ?w3) r a = unviewedBy (db w) r a" for a
    by (simp add: unviewedBy_def getOrCreate_db)
  have pk: "distinct (map uri (post (db ?w3)))"
    using assms(4) by (simp add: getOrCreate_db)
  obtain items1 news1 w4 where p1:
    "processFollowee up r pvt pts f1 ([], ?w3)
       = (if 0 < a1 \<and> pts \<le> int (length ([] :: MahootFeedItem list)) + a1 then Break else Next)
           ([] @ items1, w4)"
    "int (length items1) = max 0 a1"
    "list_all (?from f1) items1"
    "recorded r ?w3 w4 news1"
    "list_all (\<lambda>x. post_uri x \<in> uri ` set (unviewedBy (db ?w3) r (followee_did f1))) news1"
  proof -
    have e: "a1 = min (allowance pvt f1) (pts - int (length ([] :: MahootFeedItem list)))"
      using assms(9) by simp
    have s: "a1 \<le> int (length (unviewedBy (db ?w3) r (followee_did f1)))"
      using assms(11) by (simp only: uv)
    from processFollowee_exact [OF e s, of up] that show ?thesis
      by blast
  qed
  have only1: "filter (?from f1) items1 = items1" "filter (?from f2) items1 = []"
    using p1(3) assms(3) by (auto simp: list_all_iff filter_empty_conv)
  have "\<exists>items wf. processFollowees up r pvt pts [f1, f2] ([], ?w3) = (items, wf)
          \<and> int (length (filter (?from f1) items)) = max 0 a1
          \<and> int (length (filter (?from f2) items)) = max 0 a2"
  proof (cases "0 < a1 \<and> pts \<le> a1")
    case True
    then have "processFollowees up r pvt pts [f1, f2] ([], ?w3) = (items1, w4)"
      using p1(1) by simp
    moreover have "max 0 a2 = 0"
      using True assms(10) by linarith
    ultimately show ?thesis
      using p1(2) only1 by simp
  next
    case False
    then have st1: "processFollowee up r pvt pts f1 ([], ?w3) = Next (items1, w4)"
      using p1(1) by auto
    have d4: "post (db w4) = post (db ?w3)" "post_statistics (db w4) = post_statistics (db ?w3) @ news1"
      using p1(4) by (simp_all add: recorded_def)
    have uv4: "unviewedBy (db w4) r (followee_did f2) = unviewedBy (db w) r (followee_did f2)"
      using unviewedBy_other_author [OF d4 pk p1(5), of "followee_did f2"] assms(3)
      by (simp only: uv) simp
    obtain items2 news2 w5 where p2:
      "processFollowee up r pvt pts f2 (items1, w4)
         = (if 0 < a2 \<and> pts \<le> int (length items1) + a2 then Break else Next) (items1 @ items2, w5)"
      "int (length items2) = max 0 a2"
      "list_all (?from f2) items2"
    proof -
      have e: "a2 = min (allowance pvt f2) (pts - int (length items1))"
        using assms(10) p1(2) by simp
      have s: "a2 \<le> int (length (unviewedBy (db w4) r (followee_did f2)))"
        using assms(12) by (simp only: uv4)
      from processFollowee_exact [OF e s, of up] that show ?thesis
        by blast
    qed
    have only2: "filter (?from f2) items2 = items2" "filter (?from f1) items2 = []"
      using p2(3) assms(3) by (auto simp: list_all_iff filter_empty_conv)
    have "processFollowees up r pvt pts [f1, f2] ([], ?w3) = (items1 @ items2, w5)"
      by (simp add: st1 p2(1))
    then show ?thesis
      using p1(2) p2(2) only1 only2 by simp
  qed
  then obtain items wf where pf:
    "processFollowees up r pvt pts
       (sortBy (\<lambda>a b. mahoot_number b - mahoot_number a) ?fs) ([], ?w3) = (items, wf)"
    "int (length (filter (?from f1) items)) = max 0 a1"
    "int (length (filter (?from f2) items)) = max 0 a2"
    unfolding assms(2) by blast
  obtain row w6 where ud:
    "updateDailyStats wf r ?today (int (length pvt) + int (length items)) (int (length ?fs)) = Inr (row, w6)"
    using updateDailyStats_effect [of wf r ?today "int (length pvt) + int (length items)" "int (length ?fs)"]
    by blast
  obtain out w' where h:
    "handler gt w params (Some r) = Inr (out, w')"
    "feed out = map toSkeleton (sortBy (byRecency gt) items)"
    using handler_served [OF assms(1) fs assms(5,6,7,8) refl pf(1) ud, of gt]
    by blast
  have "int (length (itemsFrom (followee_did f1) (feed out))) = max 0 a1"
    "int (length (itemsFrom (followee_did f2) (feed out))) = max 0 a2"
    by (simp_all add: h(2) itemsFrom_page pf(2,3))
  with h(1) show ?thesis
    by blast
qed


section \<open>The claims\<close>

text \<open>
  C4 (as amended). \<^verbatim>\<open>calculateDefaultMahootNumber\<close> returns the stored (or default)
  \<^verbatim>\<open>default_mahoot_number\<close> unchanged when the user has no followee, and otherwise
  \<open>clamp (ceil (L / N)) 1 20\<close> for the daily limit \<open>L\<close> and the followee count \<open>N\<close>.
  For \<open>L = 300\<close>: 20 followees give 15, 1000 followees give 1 (the quotient 0.3 rounds up
  to the floor 1, it is not clamped to 20), and 10 followees give 20, where the ceiling
  does cut 30 down.
\<close>
theorem calculateDefaultMahootNumber_clamp:
  assumes "prefs = fst (getOrCreateUserPreferences w u)"
    and "L = daily_post_limit prefs"
    and "N = length (getUserFollowees w u)"
  shows "fst (calculateDefaultMahootNumber w u) =
           (if N = 0 then default_mahoot_number prefs
            else clamp \<lceil>real_of_int L / real N\<rceil> 1 20)
         \<and> (L = 300 \<and> N = 20 \<longrightarrow> fst (calculateDefaultMahootNumber w u) = 15)
         \<and> (L = 300 \<and> N = 1000 \<longrightarrow> fst (calculateDefaultMahootNumber w u) = 1)
         \<and> (L = 300 \<and> N = 10 \<longrightarrow> fst (calculateDefaultMahootNumber w u) = 20)"
  using assms by (simp add: calculateDefaultMahootNumber_fst Let_def clamp_def)

theorem calculateDefaultMahootNumber_clamp_witness:
  "daily_post_limit (fst (getOrCreateUserPreferences world20 ''alice'')) = 300
   \<and> length (getUserFollowees world20 ''alice'') = 20
   \<and> fst (calculateDefaultMahootNumber world20 ''alice'') = 15"
  using calculateDefaultMahootNumber_clamp [OF refl refl refl, of world20 "''alice''"]
  by (simp add: world20_def getOrCreateUserPreferences_def new_Date_def Let_def getUserFollowees_def
      worldOf_def emptyDb_def length_followeeRows)

text \<open>
  C4 as stated fails: with the daily limit 300 and 1000 followees the function returns
  1, not 20.
\<close>
theorem calculateDefaultMahootNumber_1000_followees:
  "daily_post_limit (fst (getOrCreateUserPreferences world1000 ''alice'')) = 300
   \<and> length (getUserFollowees world1000 ''alice'') = 1000
   \<and> fst (calculateDefaultMahootNumber world1000 ''alice'') = 1
   \<and> fst (calculateDefaultMahootNumber world1000 ''alice'') \<noteq> 20"
  by (simp add: calculateDefaultMahootNumber_fst world1000_def getOrCreateUserPreferences_def
      new_Date_def Let_def getUserFollowees_def worldOf_def emptyDb_def length_followeeRows clamp_def)

text \<open>
  C2 (the code at the failing input). \<^verbatim>\<open>post_statistics\<close> has no unique key, so the
  \<^verbatim>\<open>onConflict(doNothing)\<close> of \<^verbatim>\<open>trackPostView\<close> never finds a conflict: two calls
  with the same post, author and viewer append two rows, and from the empty table the
  pair (post, viewer) is then stored twice.
\<close>
theorem trackPostView_twice_inserts_twice:
  "post_statistics (db (trackPostView (trackPostView w p a v) p a v)) =
     post_statistics (db w) @
       [\<lparr>post_uri = p, ps_author_did = a, viewer_did = v, viewed_at = clock w (clock_reads w)\<rparr>,
        \<lparr>post_uri = p, ps_author_did = a, viewer_did = v,
          viewed_at = clock w (Suc (clock_reads w))\<rparr>]
   \<and> length (filter (\<lambda>r. post_uri r = p \<and> viewer_did r = v)
         (post_statistics (db (trackPostView (trackPostView (worldOf emptyDb t) p a v) p a v)))) = 2"
  by (simp add: trackPostView_db trackPostView_world worldOf_def emptyDb_def)



text \<open>
  C10. For a viewer and an author with no row in \<^verbatim>\<open>followee_relationships\<close>,
  \<^verbatim>\<open>getPostAuthorStats\<close> reports \<open>mahoot_number = 0\<close>; the whole result is the one it
  gives once a muted relationship (Mahoot number 0) is stored for the pair; and the
  author is listed by \<^verbatim>\<open>getAllAuthorStats\<close>, with that 0, whenever the viewer has a
  \<^verbatim>\<open>post_statistics\<close> row for the author.
\<close>
theorem getPostAuthorStats_without_relationship:
  assumes "find (\<lambda>r. fr_user_did r = v \<and> followee_did r = a) (followee_relationships (db w)) = None"
  shows "pas_mahoot_number (fst (getPostAuthorStats w v a)) = 0
       \<and> (\<forall>e. fr_user_did e = v \<and> followee_did e = a \<and> mahoot_number e = 0 \<longrightarrow>
              fst (getPostAuthorStats (withEdge w e) v a) = fst (getPostAuthorStats w v a))
       \<and> ((\<exists>r \<in> set (post_statistics (db w)). viewer_did r = v \<and> ps_author_did r = a) \<longrightarrow>
              (\<exists>s \<in> set (fst (getAllAuthorStats w v)). pas_author_did s = a \<and> pas_mahoot_number s = 0))"
proof (intro conjI allI impI)
  show "pas_mahoot_number (fst (getPostAuthorStats w v a)) = 0"
    using assms by (simp add: getPostAuthorStats_fields)
next
  fix e :: FolloweeRelationship assume "fr_user_did e = v \<and> followee_did e = a \<and> mahoot_number e = 0"
  with assms show "fst (getPostAuthorStats (withEdge w e) v a) = fst (getPostAuthorStats w v a)"
    by (simp add: getPostAuthorStats_def withEdge_def Let_def case_prod_beta new_Date_def
        countViewsSince_def find_append)
next
  assume "\<exists>r \<in> set (post_statistics (db w)). viewer_did r = v \<and> ps_author_did r = a"
  then have "a \<in> set (remdups (map ps_author_did
                (filter (\<lambda>r. viewer_did r = v) (post_statistics (db w)))))"
    by auto
  then have "a \<in> set (map pas_author_did (fst (getAllAuthorStats w v)))"
    by (simp add: getAllAuthorStats_def Let_def authorStatsLoop_authors)
  then obtain s where s: "s \<in> set (fst (getAllAuthorStats w v))" "pas_author_did s = a"
    by auto
  from s(1) have "pas_mahoot_number s = orZero (map_option mahoot_number
       (find (\<lambda>r. fr_user_did r = v \<and> followee_did r = pas_author_did s)
          (followee_relationships (db w))))"
    using authorStatsLoop_mahoot [of s v _ "[]" w] by (simp add: getAllAuthorStats_def Let_def)
  with s assms show "\<exists>s \<in> set (fst (getAllAuthorStats w v)). pas_author_did s = a \<and> pas_mahoot_number s = 0"
    by auto
qed

theorem getPostAuthorStats_without_relationship_witness:
  "find (\<lambda>r. fr_user_did r = ''alice'' \<and> followee_did r = ''bob'')
     (followee_relationships (db (worldOf unfollowedDb 7))) = None
   \<and> pas_mahoot_number (fst (getPostAuthorStats (worldOf unfollowedDb 7) ''alice'' ''bob'')) = 0
   \<and> (\<exists>s \<in> set (fst (getAllAuthorStats (worldOf unfollowedDb 7) ''alice'')).
         pas_author_did s = ''bob'' \<and> pas_mahoot_number s = 0)"
proof -
  have h: "find (\<lambda>r. fr_user_did r = ''alice'' \<and> followee_did r = ''bob'')
     (followee_relationships (db (worldOf unfollowedDb 7))) = None"
    by (simp add: worldOf_def unfollowedDb_def emptyDb_def)
  have r: "\<exists>r \<in> set (post_statistics (db (worldOf unfollowedDb 7))).
             viewer_did r = ''alice'' \<and> ps_author_did r = ''bob''"
    by (simp add: worldOf_def unfollowedDb_def emptyDb_def)
  show ?thesis
    using getPostAuthorStats_without_relationship [OF h] h r by blast
qed

text \<open>
  C8 (as amended). For a user with no followee the handler returns the empty page
  \<open>{feed: [], cursor: undefined}\<close> at once. The only write it can have made is the one
  of \<^verbatim>\<open>getOrCreateUserPreferences\<close>: the default preferences row of a user who had
  none. For a user whose preferences are stored the database is unchanged.
\<close>
theorem handler_no_followees_empty_page:
  assumes "u \<noteq> []" and "getUserFollowees w u = []"
  shows "\<exists>w'. handler gt w params (Some u) = Inr (\<lparr>cursor = None, feed = [], metadata = None\<rparr>, w')
              \<and> createsAtMostPreferences w u w'
              \<and> (\<forall>stored. find (\<lambda>r. up_user_did r = u) (user_preferences (db w)) = Some stored
                    \<longrightarrow> db w' = db w)"
  using assms handler_without_followees [of u w gt params] getOrCreate_creates [of w u]
  by (auto simp: emptyPage_def dest: getOrCreate_existing)

theorem handler_no_followees_empty_page_witness:
  "''alice'' \<noteq> [] \<and> getUserFollowees (worldOf storedPrefsDb 0) ''alice'' = []
   \<and> (\<exists>w'. handler noDates (worldOf storedPrefsDb 0) sampleParams (Some ''alice'') =
               Inr (\<lparr>cursor = None, feed = [], metadata = None\<rparr>, w')
            \<and> db w' = storedPrefsDb)"
proof -
  have f: "getUserFollowees (worldOf storedPrefsDb 0) ''alice'' = []"
    by (simp add: getUserFollowees_def worldOf_def storedPrefsDb_def emptyDb_def)
  have s: "find (\<lambda>r. up_user_did r = ''alice'') (user_preferences (db (worldOf storedPrefsDb 0))) = Some aliceLimit2"
    by (simp add: worldOf_def storedPrefsDb_def emptyDb_def aliceLimit2_def)
  have n: "''alice'' \<noteq> []" by simp
  from handler_no_followees_empty_page [OF n f, of noDates sampleParams] s show ?thesis
    using f by (auto simp: worldOf_def)
qed

text \<open>
  C8 as stated fails: on the empty database the call for a new user with no followee
  returns the empty page and leaves a row in \<^verbatim>\<open>user_preferences\<close>.
\<close>
theorem handler_no_followees_creates_preferences:
  "getUserFollowees (worldOf emptyDb 0) ''alice'' = []
   \<and> (\<exists>w'. handler noDates (worldOf emptyDb 0) sampleParams (Some ''alice'') =
               Inr (\<lparr>cursor = None, feed = [], metadata = None\<rparr>, w')
            \<and> user_preferences (db w') = [defaultPreferences ''alice'' 0]
            \<and> db w' \<noteq> db (worldOf emptyDb 0))"
proof -
  have f: "getUserFollowees (worldOf emptyDb 0) ''alice'' = []"
    by (simp add: getUserFollowees_def worldOf_def emptyDb_def)
  have "user_preferences (db (snd (getOrCreateUserPreferences (worldOf emptyDb 0) ''alice''))) =
          [defaultPreferences ''alice'' 0]"
    by (simp add: getOrCreateUserPreferences_def new_Date_def worldOf_def emptyDb_def Let_def defaultPreferences_def)
  moreover have "user_preferences (db (worldOf emptyDb 0)) = []"
    by (simp add: worldOf_def emptyDb_def)
  ultimately show ?thesis
    using f handler_without_followees [of "''alice''" "worldOf emptyDb 0" noDates sampleParams]
    by (auto simp: emptyPage_def)
qed




text \<open>
  C5 (as amended). For a negative page size the handler returns an empty page with no
  cursor and records no view: the page cap \<open>min(remaining, P)\<close> is negative. The page
  size 0 is not such a case: \<^verbatim>\<open>params.limit || 20\<close> reads it as absent and serves up
  to 20 posts, so that the call with page size 0 is the call with page size 20.
\<close>
theorem handler_negative_limit_empty_page:
  assumes "r \<noteq> []" and "limit params = Some P" and "P < 0"
  shows "(\<exists>out w'. handler gt w params (Some r) = Inr (out, w')
            \<and> feed out = [] \<and> cursor out = None
            \<and> post_statistics (db w') = post_statistics (db w))
         \<and> limitOrDefault (Some 0) = limitOrDefault None
         \<and> limitOrDefault None = 20
         \<and> handler gt w (params\<lparr>limit := Some 0\<rparr>) (Some r)
              = handler gt w (params\<lparr>limit := Some 20\<rparr>) (Some r)"
proof -
  define up where "up = fst (getOrCreateUserPreferences w r)"
  define pvt where "pvt = viewsOn (db w) r (isoDate (clock w (Suc (clock_reads w))))"
  define pts where "pts = min (daily_post_limit up - int (length pvt)) (limitOrDefault (limit params))"
  have "limitOrDefault (limit params) = P"
    using assms(2,3) by (simp add: limitOrDefault_def)
  then have neg: "pts < 0"
    using assms(3) by (simp add: pts_def)
  obtain out w' news where h:
    "handler gt w params (Some r) = Inr (out, w')"
    "post_statistics (db w') = post_statistics (db w) @ news"
    "length (feed out) = length news"
    "int (length news) \<le> max pts 0"
    "if getUserFollowees w r = [] \<or> daily_post_limit up \<le> int (length pvt)
     then out = emptyPage \<and> news = [] \<and> daily_stats (db w') = daily_stats (db w)
     else metadata out \<noteq> None \<and> (news = [] \<longrightarrow> cursor out = None)
          \<and> (\<exists>stored. dailyStatOf (db w') r (isoDate (clock w (Suc (Suc (clock_reads w))))) = Some stored
                 \<and> total_posts_viewed stored = int (length pvt) + int (length news))
          \<and> (\<forall>u' d'. (u', d') \<noteq> (r, isoDate (clock w (Suc (Suc (clock_reads w)))))
                 \<longrightarrow> dailyStatOf (db w') u' d' = dailyStatOf (db w) u' d')"
    using handler_effect [OF assms(1) up_def pvt_def refl pts_def, of gt] by blast
  from h(4) neg have n: "news = []" by simp
  with h(3) have "feed out = []" by simp
  moreover from h(5) n have "cursor out = None"
    by (auto simp: emptyPage_def split: if_splits)
  moreover have "handler gt w (params\<lparr>limit := Some 0\<rparr>) (Some r)
                   = handler gt w (params\<lparr>limit := Some 20\<rparr>) (Some r)"
    by (simp add: handler_def limitOrDefault_def Let_def case_prod_beta)
  ultimately show ?thesis
    using h(1,2) n by (simp add: limitOrDefault_def)
qed

theorem handler_negative_limit_empty_page_witness:
  "''alice'' \<noteq> [] \<and> (- 1 :: int) < 0
   \<and> (\<exists>out w'. handler noDates (worldOf onePostDb 0) \<lparr>limit = Some (- 1), qp_cursor = None\<rparr>
                    (Some ''alice'') = Inr (out, w')
          \<and> feed out = [] \<and> cursor out = None
          \<and> post_statistics (db w') = post_statistics (db (worldOf onePostDb 0)))"
  using handler_negative_limit_empty_page
          [of "''alice''" "\<lparr>limit = Some (- 1), qp_cursor = None\<rparr>" "- 1" noDates "worldOf onePostDb 0"]
  by simp

text \<open>
  C5 as stated fails for the page size 0: alice, with her whole budget left, follows bob,
  who has one post, and the call with \<open>limit = 0\<close> serves that post.
\<close>
theorem handler_zero_limit_serves:
  "\<exists>out w'. handler noDates (worldOf onePostDb 0) \<lparr>limit = Some 0, qp_cursor = None\<rparr> (Some ''alice'')
               = Inr (out, w')
           \<and> map sk_post (feed out) = [''at://bob/app.bsky.feed.post/1'']"
proof -
  have "case handler noDates (worldOf onePostDb 0) \<lparr>limit = Some 0, qp_cursor = None\<rparr> (Some ''alice'') of
          Inl e \<Rightarrow> False
        | Inr (out, w') \<Rightarrow> map sk_post (feed out) = [''at://bob/app.bsky.feed.post/1'']"
    by (simp add: handler_def getOrCreateUserPreferences_def getUserFollowees_def getPostsViewedToday_def
        new_Date_def worldOf_def onePostDb_def emptyDb_def follows_def Let_def limitOrDefault_def
        sortBy_def processFollowee_def getUnviewedPostsByAuthor_def sqlLimit_def shuffle_def
        addPost_def trackPostView_def insertOnConflictDoNothing_def conflicts_def
        post_statistics_unique_def updateDailyStats_def daily_stats_unique_def toSkeleton_def
        isoDate_def msPerDay_def dayStart_def dayLastMs_def)
  then show ?thesis
    by (auto split: sum.splits)
qed

text \<open>
  C7 (as amended). Take a call whose clock readings all fall within one day \<open>D0\<close> (from 00:00:00.000 up
  to, not including, 23:59:59.999, the day of \<^verbatim>\<open>getPostsViewedToday\<close>). For every user
  and day, a stored \<^verbatim>\<open>total_posts_viewed\<close> that equals the number of the user's views
  of that day before the call still does so after it. And a call that gets past both
  early returns leaves the row of the requester and \<open>D0\<close> stored with the number of views
  counted before the call plus the number of posts in the returned feed, which is the
  number of the requester's views of \<open>D0\<close> after the call.
\<close>
theorem handler_keeps_daily_total:
  assumes "r \<noteq> []"
    and "\<forall>k \<ge> clock_reads w. dayStart D0 \<le> clock w k \<and> clock w k < dayLastMs D0"
    and "handler gt w params (Some r) = Inr (out, w')"
  shows "(dailyStatAgrees (db w) u day \<longrightarrow> dailyStatAgrees (db w') u day)
       \<and> (getUserFollowees w r \<noteq> []
            \<and> int (length (viewsOn (db w) r D0)) < daily_post_limit (fst (getOrCreateUserPreferences w r))
          \<longrightarrow> (\<exists>stored. dailyStatOf (db w') r D0 = Some stored
                  \<and> total_posts_viewed stored = int (length (viewsOn (db w) r D0)) + int (length (feed out))
                  \<and> total_posts_viewed stored = int (length (viewsOn (db w') r D0))))"
proof -
  define up where "up = fst (getOrCreateUserPreferences w r)"
  define pvt where "pvt = viewsOn (db w) r (isoDate (clock w (Suc (clock_reads w))))"
  define today where "today = isoDate (clock w (Suc (Suc (clock_reads w))))"
  define pts where "pts = min (daily_post_limit up - int (length pvt)) (limitOrDefault (limit params))"
  have d1: "isoDate (clock w (Suc (clock_reads w))) = D0"
    using assms(2) by (intro isoDate_in_day) simp_all
  have d2: "today = D0"
    unfolding today_def using assms(2) by (intro isoDate_in_day) simp_all
  have pvt: "pvt = viewsOn (db w) r D0"
    by (simp add: pvt_def d1)
  obtain out1 w1 news where h:
    "handler gt w params (Some r) = Inr (out1, w1)"
    "post_statistics (db w1) = post_statistics (db w) @ news"
    "list_all (\<lambda>x. viewer_did x = r
                \<and> (\<exists>k. Suc (clock_reads w) < k \<and> k < clock_reads w1 \<and> viewed_at x = clock w k)) news"
    "length (feed out1) = length news"
    "if getUserFollowees w r = [] \<or> daily_post_limit up \<le> int (length pvt)
     then out1 = emptyPage \<and> news = [] \<and> daily_stats (db w1) = daily_stats (db w)
     else metadata out1 \<noteq> None \<and> (news = [] \<longrightarrow> cursor out1 = None)
          \<and> (\<exists>stored. dailyStatOf (db w1) r today = Some stored
                 \<and> total_posts_viewed stored = int (length pvt) + int (length news))
          \<and> (\<forall>u' d'. (u', d') \<noteq> (r, today)
                 \<longrightarrow> dailyStatOf (db w1) u' d' = dailyStatOf (db w) u' d')"
    using handler_effect [OF assms(1) up_def pvt_def today_def pts_def, of gt] by blast
  from h(1) assms(3) have eq: "out1 = out" "w1 = w'" by simp_all
  have stamped: "list_all (\<lambda>x. viewer_did x = r \<and> dayStart D0 \<le> viewed_at x \<and> viewed_at x < dayLastMs D0) news"
  proof -
    have "dayStart D0 \<le> viewed_at x \<and> viewed_at x < dayLastMs D0" if "x \<in> set news" for x
    proof -
      from h(3) that obtain k where "Suc (clock_reads w) < k" "viewed_at x = clock w k"
        by (auto simp: list_all_iff)
      with assms(2) [rule_format, of k] show ?thesis by simp
    qed
    with h(3) show ?thesis by (simp add: list_all_iff)
  qed
  have views: "viewsOn (db w') u' d' = viewsOn (db w) u' d' @ (if u' = r \<and> d' = D0 then news else [])" for u' d'
    using viewsOn_append [OF h(2) stamped] eq by simp
  show ?thesis
  proof (cases "getUserFollowees w r = [] \<or> daily_post_limit up \<le> int (length pvt)")
    case True
    with h(5) eq have n: "news = []" "daily_stats (db w') = daily_stats (db w)" by simp_all
    have "viewsOn (db w') u day = viewsOn (db w) u day"
      using views [of u day] n(1) by simp
    moreover have "dailyStatOf (db w') u day = dailyStatOf (db w) u day"
      by (simp add: dailyStatOf_def n(2))
    ultimately have "dailyStatAgrees (db w') u day = dailyStatAgrees (db w) u day"
      by (simp add: dailyStatAgrees_def split: option.splits)
    with True show ?thesis
      by (auto simp: up_def pvt)
  next
    case False
    with h(5) eq d2 obtain stored where st:
      "dailyStatOf (db w') r D0 = Some stored"
      "total_posts_viewed stored = int (length pvt) + int (length news)"
      and oth: "\<forall>u' d'. (u', d') \<noteq> (r, D0) \<longrightarrow> dailyStatOf (db w') u' d' = dailyStatOf (db w) u' d'"
      by auto
    have a: "dailyStatAgrees (db w) u day \<longrightarrow> dailyStatAgrees (db w') u day"
    proof (cases "(u, day) = (r, D0)")
      case True
      with st views [of r D0] show ?thesis
        by (simp add: dailyStatAgrees_def pvt)
    next
      case False
      then have "viewsOn (db w') u day = viewsOn (db w) u day"
        using views [of u day] by auto
      moreover have "dailyStatOf (db w') u day = dailyStatOf (db w) u day"
        using oth False by blast
      ultimately have "dailyStatAgrees (db w') u day = dailyStatAgrees (db w) u day"
        by (simp add: dailyStatAgrees_def split: option.splits)
      then show ?thesis by simp
    qed
    have b: "\<exists>stored. dailyStatOf (db w') r D0 = Some stored
                  \<and> total_posts_viewed stored = int (length (viewsOn (db w) r D0)) + int (length (feed out))
                  \<and> total_posts_viewed stored = int (length (viewsOn (db w') r D0))"
      using st views [of r D0] h(4) eq by (simp add: pvt)
    from a b show ?thesis by blast
  qed
qed

theorem handler_keeps_daily_total_witness:
  "\<exists>out w'. handler noDates (worldOf onePostDb (dayStart 1000 + 5000)) sampleParams (Some ''alice'')
               = Inr (out, w')
     \<and> length (feed out) = 1
     \<and> dailyStatAgrees (db w') ''alice'' 1000
     \<and> (\<exists>stored. dailyStatOf (db w') ''alice'' 1000 = Some stored
            \<and> total_posts_viewed stored = 1
            \<and> length (viewsOn (db w') ''alice'' 1000) = 1)"
proof -
  let ?w = "worldOf onePostDb (dayStart 1000 + 5000)"
  have "case handler noDates ?w sampleParams (Some ''alice'') of
          Inl e \<Rightarrow> False
        | Inr (out, w') \<Rightarrow> length (feed out) = 1"
    by (simp add: handler_def getOrCreateUserPreferences_def getUserFollowees_def getPostsViewedToday_def
        new_Date_def worldOf_def onePostDb_def emptyDb_def follows_def Let_def limitOrDefault_def
        sampleParams_def sortBy_def processFollowee_def getUnviewedPostsByAuthor_def sqlLimit_def
        shuffle_def addPost_def trackPostView_def insertOnConflictDoNothing_def conflicts_def
        post_statistics_unique_def updateDailyStats_def daily_stats_unique_def toSkeleton_def
        isoDate_def msPerDay_def dayStart_def dayLastMs_def)
  then obtain out w' where h: "handler noDates ?w sampleParams (Some ''alice'') = Inr (out, w')"
    "length (feed out) = 1"
    by (auto split: sum.splits)
  have n: "''alice'' \<noteq> []" by simp
  have win: "\<forall>k \<ge> clock_reads ?w. dayStart 1000 \<le> clock ?w k \<and> clock ?w k < dayLastMs 1000"
    by (simp add: worldOf_def dayStart_def dayLastMs_def)
  have f: "getUserFollowees ?w ''alice'' \<noteq> []"
    by (simp add: getUserFollowees_def worldOf_def onePostDb_def emptyDb_def follows_def)
  have v: "viewsOn (db ?w) ''alice'' 1000 = []"
    by (simp add: viewsOn_def worldOf_def onePostDb_def emptyDb_def)
  have l: "daily_post_limit (fst (getOrCreateUserPreferences ?w ''alice'')) = 300"
    by (simp add: getOrCreateUserPreferences_def new_Date_def worldOf_def onePostDb_def emptyDb_def Let_def)
  have a: "dailyStatAgrees (db ?w) ''alice'' 1000"
    by (simp add: dailyStatAgrees_def dailyStatOf_def worldOf_def onePostDb_def emptyDb_def)
  from handler_keeps_daily_total [OF n win h(1), of "''alice''" 1000] f v l a h
  show ?thesis by auto
qed

text \<open>
  C7 as stated fails for a call that runs across midnight. The call reads the date on day
  1000, in \<^verbatim>\<open>getPostsViewedToday\<close> and for the statistics row, and records its view
  after midnight. It stores \<^verbatim>\<open>total_posts_viewed = 1\<close> for alice and day 1000, a day on
  which alice has no view; the view is dated day 1001, which has no statistics row.
\<close>
theorem handler_across_midnight:
  "mono (clock (midnightWorld onePostDb))
   \<and> dailyStatAgrees (db (midnightWorld onePostDb)) ''alice'' 1000
   \<and> (\<exists>out w'. handler noDates (midnightWorld onePostDb) sampleParams (Some ''alice'') = Inr (out, w')
         \<and> length (feed out) = 1
         \<and> (\<exists>stored. dailyStatOf (db w') ''alice'' 1000 = Some stored \<and> total_posts_viewed stored = 1)
         \<and> length (viewsOn (db w') ''alice'' 1000) = 0
         \<and> length (viewsOn (db w') ''alice'' 1001) = 1
         \<and> dailyStatOf (db w') ''alice'' 1001 = None
         \<and> \<not> dailyStatAgrees (db w') ''alice'' 1000)"
proof -
  have "case handler noDates (midnightWorld onePostDb) sampleParams (Some ''alice'') of
          Inl e \<Rightarrow> False
        | Inr (out, w') \<Rightarrow> length (feed out) = 1
            \<and> dailyStatOf (db w') ''alice'' 1000
                = Some \<lparr>ds_user_did = ''alice'', date = 1000, total_posts_viewed = 1, followee_count = 1\<rparr>
            \<and> dailyStatOf (db w') ''alice'' 1001 = None
            \<and> viewsOn (db w') ''alice'' 1000 = []
            \<and> length (viewsOn (db w') ''alice'' 1001) = 1"
    by (simp add: handler_def getOrCreateUserPreferences_def getUserFollowees_def getPostsViewedToday_def
        new_Date_def midnightWorld_def onePostDb_def emptyDb_def follows_def Let_def limitOrDefault_def
        sampleParams_def sortBy_def processFollowee_def getUnviewedPostsByAuthor_def sqlLimit_def
        shuffle_def addPost_def trackPostView_def insertOnConflictDoNothing_def conflicts_def
        post_statistics_unique_def updateDailyStats_def daily_stats_unique_def toSkeleton_def
        isoDate_def msPerDay_def dayStart_def dayLastMs_def dailyStatOf_def viewsOn_def)
  then obtain out w' where h: "handler noDates (midnightWorld onePostDb) sampleParams (Some ''alice'') = Inr (out, w')"
    "length (feed out) = 1"
    "dailyStatOf (db w') ''alice'' 1000
                = Some \<lparr>ds_user_did = ''alice'', date = 1000, total_posts_viewed = 1, followee_count = 1\<rparr>"
    "dailyStatOf (db w') ''alice'' 1001 = None"
    "viewsOn (db w') ''alice'' 1000 = []"
    "length (viewsOn (db w') ''alice'' 1001) = 1"
    by (auto split: sum.splits)
  have m: "mono (clock (midnightWorld onePostDb))"
    by (simp add: mono_def midnightWorld_def dayStart_def msPerDay_def)
  have a: "dailyStatAgrees (db (midnightWorld onePostDb)) ''alice'' 1000"
    by (simp add: dailyStatAgrees_def dailyStatOf_def midnightWorld_def onePostDb_def emptyDb_def)
  have n: "\<not> dailyStatAgrees (db w') ''alice'' 1000"
    by (simp add: dailyStatAgrees_def h)
  from h m a n show ?thesis
    by auto
qed

text \<open>
  C1 (as amended). Let user \<open>U\<close> follow \<open>F\<close> with Mahoot number \<open>Q\<close> (one row per followee, as the unique
  key of \<^verbatim>\<open>followee_relationships\<close> ensures), and let any sequence of handler calls, by
  any requesters and with any page sizes, run one after the other on a clock that never
  goes back, over any number of days. Of the views these calls record, those by \<open>U\<close> of
  \<open>F\<close> within any one day \<open>D\<close> (00:00:00.000 up to, not including, 23:59:59.999, the day of
  \<^verbatim>\<open>getPostsViewedToday\<close>) number at most \<open>Q\<close>; none at all is recorded for \<open>U\<close> and
  \<open>F\<close> when \<open>Q = 0\<close>; and when no reading of the clock is the last millisecond of a day,
  the bound \<open>Q\<close> holds for the recorded views dated \<open>D\<close>.
\<close>
theorem generateFeeds_respects_quota:
  assumes "distinct (map followee_did (getUserFollowees w U))"
    and "f \<in> set (getUserFollowees w U)"
    and "followee_did f = F" and "mahoot_number f = Q" and "0 \<le> Q"
    and "mono (clock w)"
  shows "\<exists>created. post_statistics (db (generateFeeds gt calls w)) = post_statistics (db w) @ created
           \<and> (\<forall>D. int (length (filter (\<lambda>x. viewer_did x = U \<and> ps_author_did x = F
                                      \<and> dayStart D \<le> viewed_at x \<and> viewed_at x < dayLastMs D) created)) \<le> Q)
           \<and> (Q = 0 \<longrightarrow> filter (\<lambda>x. viewer_did x = U \<and> ps_author_did x = F) created = [])
           \<and> ((\<forall>k D. clock w k \<noteq> dayLastMs D) \<longrightarrow>
                 (\<forall>D. int (length (filter (\<lambda>x. viewer_did x = U \<and> ps_author_did x = F
                                          \<and> isoDate (viewed_at x) = D) created)) \<le> Q))"
proof -
  have base: "post_statistics (db w) = post_statistics (db w) @ []"
    "\<forall>x \<in> set ([] :: PostStatistics list). viewed_at x \<le> clock w (clock_reads w)"
    "\<forall>D. int (length (filter (\<lambda>x. viewer_did x = U \<and> ps_author_did x = followee_did f
                                       \<and> dayStart D \<le> viewed_at x \<and> viewed_at x < dayLastMs D) []))
              \<le> mahoot_number f"
    using assms(4,5) by simp_all
  have q: "0 \<le> mahoot_number f"
    using assms(4,5) by simp
  obtain created where c:
    "post_statistics (db (generateFeeds gt calls w)) = post_statistics (db w) @ [] @ created"
    "list_all (\<lambda>x. \<exists>k. viewed_at x = clock w k) created"
    "\<forall>D. int (length (filter (\<lambda>x. viewer_did x = U \<and> ps_author_did x = followee_did f
                                       \<and> dayStart D \<le> viewed_at x \<and> viewed_at x < dayLastMs D) ([] @ created)))
                    \<le> mahoot_number f"
    "mahoot_number f = 0 \<longrightarrow>
         filter (\<lambda>x. viewer_did x = U \<and> ps_author_did x = followee_did f) created = []"
    using generateFeeds_quota [OF assms(1,2) q assms(6) base, of gt calls] by blast
  have win: "\<forall>D. int (length (filter (\<lambda>x. viewer_did x = U \<and> ps_author_did x = F
                        \<and> dayStart D \<le> viewed_at x \<and> viewed_at x < dayLastMs D) created)) \<le> Q"
    using c(3) assms(3,4) by simp
  have date: "filter (\<lambda>x. viewer_did x = U \<and> ps_author_did x = F \<and> isoDate (viewed_at x) = D) created
              = filter (\<lambda>x. viewer_did x = U \<and> ps_author_did x = F
                        \<and> dayStart D \<le> viewed_at x \<and> viewed_at x < dayLastMs D) created"
    if early: "\<forall>k D. clock w k \<noteq> dayLastMs D" for D
  proof (rule filter_cong [OF refl])
    fix x assume "x \<in> set created"
    with c(2) obtain k where k: "viewed_at x = clock w k"
      by (auto simp: list_all_iff)
    with early have "viewed_at x \<noteq> dayLastMs D" by simp
    then show "(viewer_did x = U \<and> ps_author_did x = F \<and> isoDate (viewed_at x) = D)
             = (viewer_did x = U \<and> ps_author_did x = F
                        \<and> dayStart D \<le> viewed_at x \<and> viewed_at x < dayLastMs D)"
      by (simp add: isoDate_window)
  qed
  from c(1,4) win date assms(3,4) show ?thesis
    by (intro exI [of _ created]) simp
qed

theorem generateFeeds_respects_quota_witness:
  "distinct (map followee_did (getUserFollowees (midnightWorld quotaDb) ''alice''))
   \<and> follows ''alice'' ''bob'' 1 \<in> set (getUserFollowees (midnightWorld quotaDb) ''alice'')
   \<and> mono (clock (midnightWorld quotaDb))
   \<and> (\<exists>created.
         post_statistics (db (generateFeeds noDates
            [(sampleParams, Some ''alice''), (sampleParams, Some ''alice'')]
            (midnightWorld quotaDb))) = created
         \<and> int (length (filter (\<lambda>x. viewer_did x = ''alice'' \<and> ps_author_did x = ''bob''
                                    \<and> dayStart 1000 \<le> viewed_at x \<and> viewed_at x < dayLastMs 1000)
                                created)) \<le> 1
         \<and> int (length (filter (\<lambda>x. viewer_did x = ''alice'' \<and> ps_author_did x = ''bob''
                                    \<and> dayStart 1001 \<le> viewed_at x \<and> viewed_at x < dayLastMs 1001)
                                created)) \<le> 1)"
proof -
  let ?w = "midnightWorld quotaDb"
  let ?calls = "[(sampleParams, Some ''alice''), (sampleParams, Some ''alice'')]"
  have fs: "getUserFollowees ?w ''alice'' = [follows ''alice'' ''bob'' 1, follows ''alice'' ''carol'' 0]"
    by (simp add: getUserFollowees_def midnightWorld_def quotaDb_def emptyDb_def follows_def)
  have d: "distinct (map followee_did (getUserFollowees ?w ''alice''))"
    by (simp add: fs follows_def)
  have m: "follows ''alice'' ''bob'' 1 \<in> set (getUserFollowees ?w ''alice'')"
    by (simp add: fs)
  have c: "mono (clock ?w)"
    by (simp add: mono_def midnightWorld_def dayStart_def msPerDay_def)
  have e: "post_statistics (db ?w) = []"
    by (simp add: midnightWorld_def quotaDb_def emptyDb_def)
  have q: "followee_did (follows ''alice'' ''bob'' 1) = ''bob''" "mahoot_number (follows ''alice'' ''bob'' 1) = 1"
    by (simp_all add: follows_def)
  have z: "(0::int) \<le> 1" by simp
  obtain created where cr:
    "post_statistics (db (generateFeeds noDates ?calls ?w)) = post_statistics (db ?w) @ created"
    "\<forall>D. int (length (filter (\<lambda>x. viewer_did x = ''alice'' \<and> ps_author_did x = ''bob''
                                  \<and> dayStart D \<le> viewed_at x \<and> viewed_at x < dayLastMs D) created)) \<le> 1"
    using generateFeeds_respects_quota [OF d m q(1) q(2) z c, of noDates ?calls] by blast
  from cr(2) have "int (length (filter (\<lambda>x. viewer_did x = ''alice'' \<and> ps_author_did x = ''bob''
                                  \<and> dayStart 1000 \<le> viewed_at x \<and> viewed_at x < dayLastMs 1000) created)) \<le> 1"
    "int (length (filter (\<lambda>x. viewer_did x = ''alice'' \<and> ps_author_did x = ''bob''
                                  \<and> dayStart 1001 \<le> viewed_at x \<and> viewed_at x < dayLastMs 1001) created)) \<le> 1"
    by blast+
  with cr(1) d m c show ?thesis
    by (simp add: e)
qed

text \<open>
  C1 as stated fails in the last millisecond of a day, and on a clock that is set back.
  alice follows bob with Mahoot number 1, and bob has two posts. When two calls run at
  23:59:59.999 of day 1000, the second call does not count the view the first one recorded
  (\<^verbatim>\<open>getPostsViewedToday\<close> takes the views before 23:59:59.999 only) and records a
  second view of bob dated day 1000. When the clock shows day 999 while the second call
  reads today's views, and day 1000 at every other reading, the second call counts the
  views of day 999, none, and records a second view of bob within day 1000.
\<close>
theorem generateFeeds_exceeds_quota:
  "distinct (map followee_did (getUserFollowees (worldOf quotaDb (dayLastMs 1000)) ''alice''))
   \<and> follows ''alice'' ''bob'' 1 \<in> set (getUserFollowees (worldOf quotaDb (dayLastMs 1000)) ''alice'')
   \<and> mono (clock (worldOf quotaDb (dayLastMs 1000)))
   \<and> length (filter (\<lambda>x. viewer_did x = ''alice'' \<and> ps_author_did x = ''bob''
                          \<and> isoDate (viewed_at x) = 1000)
         (post_statistics (db (generateFeeds noDates
            [(sampleParams, Some ''alice''), (sampleParams, Some ''alice'')]
            (worldOf quotaDb (dayLastMs 1000)))))) = 2
   \<and> length (filter (\<lambda>x. viewer_did x = ''alice'' \<and> ps_author_did x = ''bob''
                          \<and> dayStart 1000 \<le> viewed_at x \<and> viewed_at x < dayLastMs 1000)
         (post_statistics (db (generateFeeds noDates
            [(sampleParams, Some ''alice''), (sampleParams, Some ''alice'')]
            (setBackWorld quotaDb))))) = 2"
proof -
  have fs: "getUserFollowees (worldOf quotaDb (dayLastMs 1000)) ''alice''
              = [follows ''alice'' ''bob'' 1, follows ''alice'' ''carol'' 0]"
    by (simp add: getUserFollowees_def worldOf_def quotaDb_def emptyDb_def follows_def)
  have d: "distinct (map followee_did (getUserFollowees (worldOf quotaDb (dayLastMs 1000)) ''alice''))"
    by (simp add: fs follows_def)
  have m: "follows ''alice'' ''bob'' 1 \<in> set (getUserFollowees (worldOf quotaDb (dayLastMs 1000)) ''alice'')"
    by (simp add: fs)
  have c: "mono (clock (worldOf quotaDb (dayLastMs 1000)))"
    by (simp add: mono_def worldOf_def)
  have lastMs: "post_statistics (db (generateFeeds noDates
            [(sampleParams, Some ''alice''), (sampleParams, Some ''alice'')]
            (worldOf quotaDb (dayLastMs 1000))))
   = [\<lparr>post_uri = ''at://bob/app.bsky.feed.post/2'', ps_author_did = ''bob'', viewer_did = ''alice'',
       viewed_at = dayLastMs 1000\<rparr>,
      \<lparr>post_uri = ''at://bob/app.bsky.feed.post/1'', ps_author_did = ''bob'', viewer_did = ''alice'',
       viewed_at = dayLastMs 1000\<rparr>]"
    by (simp add: handler_def getOrCreateUserPreferences_def getUserFollowees_def getPostsViewedToday_def
        new_Date_def worldOf_def quotaDb_def emptyDb_def follows_def Let_def limitOrDefault_def
        sampleParams_def sortBy_def processFollowee_def getUnviewedPostsByAuthor_def sqlLimit_def
        shuffle_def addPost_def trackPostView_def insertOnConflictDoNothing_def conflicts_def
        post_statistics_unique_def updateDailyStats_def daily_stats_unique_def toSkeleton_def
        isoDate_def msPerDay_def dayStart_def dayLastMs_def)
  have setBack: "post_statistics (db (generateFeeds noDates
            [(sampleParams, Some ''alice''), (sampleParams, Some ''alice'')]
            (setBackWorld quotaDb)))
   = [\<lparr>post_uri = ''at://bob/app.bsky.feed.post/2'', ps_author_did = ''bob'', viewer_did = ''alice'',
       viewed_at = dayStart 1000 + 5000\<rparr>,
      \<lparr>post_uri = ''at://bob/app.bsky.feed.post/1'', ps_author_did = ''bob'', viewer_did = ''alice'',
       viewed_at = dayStart 1000 + 5000\<rparr>]"
    by (simp add: handler_def getOrCreateUserPreferences_def getUserFollowees_def getPostsViewedToday_def
        new_Date_def setBackWorld_def quotaDb_def emptyDb_def follows_def Let_def limitOrDefault_def
        sampleParams_def sortBy_def processFollowee_def getUnviewedPostsByAuthor_def sqlLimit_def
        shuffle_def addPost_def trackPostView_def insertOnConflictDoNothing_def conflicts_def
        post_statistics_unique_def updateDailyStats_def daily_stats_unique_def toSkeleton_def
        isoDate_def msPerDay_def dayStart_def dayLastMs_def)
  have l: "length (filter (\<lambda>x. viewer_did x = ''alice'' \<and> ps_author_did x = ''bob''
                          \<and> isoDate (viewed_at x) = 1000)
         (post_statistics (db (generateFeeds noDates
            [(sampleParams, Some ''alice''), (sampleParams, Some ''alice'')]
            (worldOf quotaDb (dayLastMs 1000)))))) = 2"
    unfolding lastMs by (simp add: isoDate_def dayLastMs_def msPerDay_def)
  have b: "length (filter (\<lambda>x. viewer_did x = ''alice'' \<and> ps_author_did x = ''bob''
                          \<and> dayStart 1000 \<le> viewed_at x \<and> viewed_at x < dayLastMs 1000)
         (post_statistics (db (generateFeeds noDates
            [(sampleParams, Some ''alice''), (sampleParams, Some ''alice'')]
            (setBackWorld quotaDb))))) = 2"
    unfolding setBack by (simp add: dayStart_def dayLastMs_def msPerDay_def)
  from d m c l b show ?thesis
    by blast
qed

text \<open>
  C6 (as amended). The handler walks the followees in descending order of Mahoot number:
  its sort of any followee list is a rearrangement of the list in which no followee comes
  before one with a larger number. With two followees of Mahoot numbers 10 and 3, in either
  table order, a page cap \<open>min(remaining, P) = 8\<close> and enough unviewed posts of each (8 and
  3), the followee with Mahoot number 10 is served first and contributes what is left of
  its 10 for today, at most 8: \<open>min(8, 10 - v10)\<close>, where \<open>v10\<close> counts its posts among the
  requester's views of today. The followee with Mahoot number 3 gets what the first left
  of the cap, up to what is left of its own 3. When \<open>v10 \<le> 2\<close>, as on a fresh day, the
  page holds 8 items of the first followee and none of the second.
\<close>
theorem handler_priority_first:
  assumes "r \<noteq> []"
    and "getUserFollowees w r = [f10, f3] \<or> getUserFollowees w r = [f3, f10]"
    and "mahoot_number f10 = 10" and "mahoot_number f3 = 3"
    and "followee_did f10 \<noteq> followee_did f3"
    and "distinct (map uri (post (db w)))"
    and "pvt = viewsOn (db w) r (isoDate (clock w (Suc (clock_reads w))))"
    and "min (daily_post_limit (fst (getOrCreateUserPreferences w r)) - int (length pvt))
             (limitOrDefault (limit params)) = 8"
    and "v10 = int (length (filter (\<lambda>x. ps_author_did x = followee_did f10) pvt))"
    and "v3 = int (length (filter (\<lambda>x. ps_author_did x = followee_did f3) pvt))"
    and "8 \<le> length (unviewedBy (db w) r (followee_did f10))"
    and "3 \<le> length (unviewedBy (db w) r (followee_did f3))"
  shows "(\<exists>out w'. handler gt w params (Some r) = Inr (out, w')
            \<and> int (length (itemsFrom (followee_did f10) (feed out))) = min 8 (max 0 (10 - v10))
            \<and> int (length (itemsFrom (followee_did f3) (feed out)))
                 = min (max 0 (3 - v3)) (8 - min 8 (max 0 (10 - v10)))
            \<and> (v10 \<le> 2 \<longrightarrow> length (itemsFrom (followee_did f10) (feed out)) = 8
                           \<and> length (itemsFrom (followee_did f3) (feed out)) = 0))
       \<and> sorted_wrt (\<lambda>a b. mahoot_number b \<le> mahoot_number a)
            (sortBy (\<lambda>a b. mahoot_number b - mahoot_number a) fs)
       \<and> mset (sortBy (\<lambda>a b. mahoot_number b - mahoot_number a) fs) = mset fs"
proof -
  define up where "up = fst (getOrCreateUserPreferences w r)"
  define a1 where "a1 = min 8 (max 0 (10 - v10))"
  define a2 where "a2 = min (max 0 (3 - v3)) (8 - a1)"
  have srt: "sortBy (\<lambda>a b. mahoot_number b - mahoot_number a) (getUserFollowees w r) = [f10, f3]"
    using assms(2,3,4) by (auto simp: sortBy_def)
  have pts: "(8::int) = min (daily_post_limit up - int (length pvt)) (limitOrDefault (limit params))"
    using assms(8) by (simp add: up_def)
  then have budget: "int (length pvt) < daily_post_limit up"
    by linarith
  have al: "allowance pvt f10 = max 0 (10 - v10)" "allowance pvt f3 = max 0 (3 - v3)"
    by (simp_all add: allowance_def assms(3,4,9,10))
  have seen: "0 \<le> v10" "0 \<le> v3"
    by (simp_all add: assms(9,10))
  have nonneg: "0 \<le> a1" "a1 \<le> 8" "0 \<le> a2" "a2 \<le> 3"
    using seen unfolding a1_def a2_def by linarith+
  have e1: "a1 = min (allowance pvt f10) 8"
    by (simp add: a1_def al min.commute)
  have e2: "a2 = min (allowance pvt f3) (8 - max 0 a1)"
    using nonneg(1) by (simp add: a2_def al)
  have s1: "a1 \<le> int (length (unviewedBy (db w) r (followee_did f10)))"
    using nonneg(2) assms(11) by linarith
  have s2: "a2 \<le> int (length (unviewedBy (db w) r (followee_did f3)))"
    using nonneg(4) assms(12) by linarith
  obtain out w' where h:
    "handler gt w params (Some r) = Inr (out, w')"
    "int (length (itemsFrom (followee_did f10) (feed out))) = max 0 a1"
    "int (length (itemsFrom (followee_did f3) (feed out))) = max 0 a2"
    using handler_two_followees [OF assms(1) srt assms(5,6) up_def assms(7) budget pts e1 e2 s1 s2, of gt]
    by blast
  have c1: "int (length (itemsFrom (followee_did f10) (feed out))) = min 8 (max 0 (10 - v10))"
    using h(2) nonneg(1) by (simp add: a1_def)
  have c2: "int (length (itemsFrom (followee_did f3) (feed out)))
              = min (max 0 (3 - v3)) (8 - min 8 (max 0 (10 - v10)))"
    using h(3) nonneg(3) by (simp add: a2_def a1_def)
  have c3: "length (itemsFrom (followee_did f10) (feed out)) = 8
            \<and> length (itemsFrom (followee_did f3) (feed out)) = 0" if "v10 \<le> 2"
  proof -
    from that have "a1 = 8" by (simp add: a1_def)
    moreover from this have "a2 = 0"
      by (simp add: a2_def)
    ultimately show ?thesis
      using h(2,3) by simp
  qed
  from h(1) c1 c2 c3 show ?thesis
    by (auto simp: sortBy_quota_sorted)
qed

theorem handler_priority_first_witness:
  "\<exists>out w'. handler noDates (worldOf priorityDb (dayStart 1000 + 5000)) \<lparr>limit = Some 8, qp_cursor = None\<rparr>
               (Some ''alice'') = Inr (out, w')
     \<and> length (itemsFrom ''ann'' (feed out)) = 8
     \<and> length (itemsFrom ''ben'' (feed out)) = 0"
proof -
  let ?w = "worldOf priorityDb (dayStart 1000 + 5000)"
  let ?p = "\<lparr>limit = Some 8, qp_cursor = None\<rparr>"
  have n: "''alice'' \<noteq> []" by simp
  have fs: "getUserFollowees ?w ''alice'' = [follows ''alice'' ''ann'' 10, follows ''alice'' ''ben'' 3]
          \<or> getUserFollowees ?w ''alice'' = [follows ''alice'' ''ben'' 3, follows ''alice'' ''ann'' 10]"
    by (simp add: getUserFollowees_def worldOf_def priorityDb_def emptyDb_def follows_def)
  have q: "mahoot_number (follows ''alice'' ''ann'' 10) = 10" "mahoot_number (follows ''alice'' ''ben'' 3) = 3"
    "followee_did (follows ''alice'' ''ann'' 10) \<noteq> followee_did (follows ''alice'' ''ben'' 3)"
    by (simp_all add: follows_def)
  have fd: "followee_did (follows ''alice'' ''ann'' 10) = ''ann''" "followee_did (follows ''alice'' ''ben'' 3) = ''ben''"
    by (simp_all add: follows_def)
  have pk: "distinct (map uri (post (db ?w)))"
    by (simp add: worldOf_def priorityDb_def emptyDb_def postNamed_def)
  have v: "viewsOn (db ?w) ''alice'' (isoDate (clock ?w (Suc (clock_reads ?w)))) = []"
    by (simp add: viewsOn_def worldOf_def priorityDb_def emptyDb_def)
  have l: "daily_post_limit (fst (getOrCreateUserPreferences ?w ''alice'')) = 300"
    by (simp add: getOrCreateUserPreferences_def new_Date_def worldOf_def priorityDb_def emptyDb_def Let_def)
  have cap: "min (daily_post_limit (fst (getOrCreateUserPreferences ?w ''alice''))
                    - int (length ([] :: PostStatistics list))) (limitOrDefault (limit ?p)) = 8"
    by (simp add: l limitOrDefault_def)
  have v10: "(0::int) = int (length (filter (\<lambda>x. ps_author_did x = followee_did (follows ''alice'' ''ann'' 10))
                ([] :: PostStatistics list)))"
    by simp
  have v3: "(0::int) = int (length (filter (\<lambda>x. ps_author_did x = followee_did (follows ''alice'' ''ben'' 3))
                ([] :: PostStatistics list)))"
    by simp
  have enough: "8 \<le> length (unviewedBy (db ?w) ''alice'' (followee_did (follows ''alice'' ''ann'' 10)))"
    "3 \<le> length (unviewedBy (db ?w) ''alice'' (followee_did (follows ''alice'' ''ben'' 3)))"
    by (simp_all add: unviewedBy_def worldOf_def priorityDb_def emptyDb_def postNamed_def fd)
  from handler_priority_first [OF n fs q pk v [symmetric] cap v10 v3 enough, where gt = noDates and fs = "[]"]
  show ?thesis
    by (auto simp: fd)
qed

text \<open>
  C6 as stated fails once the requester has views today. alice has seen 5 of ann's posts
  today; ann (Mahoot number 10) still has 8 unviewed posts and ben (Mahoot number 3) has
  5. A page capped at 8 then holds 5 items of ann and 3 of ben, not 0.
\<close>
theorem handler_priority_after_views:
  "getUserFollowees (worldOf fiveSeenDb (dayStart 1000 + 5000)) ''alice''
      = [follows ''alice'' ''ben'' 3, follows ''alice'' ''ann'' 10]
   \<and> length (unviewedBy fiveSeenDb ''alice'' ''ann'') = 8
   \<and> length (unviewedBy fiveSeenDb ''alice'' ''ben'') = 5
   \<and> min (daily_post_limit (fst (getOrCreateUserPreferences (worldOf fiveSeenDb (dayStart 1000 + 5000)) ''alice''))
            - int (length (viewsOn fiveSeenDb ''alice'' 1000)))
         (limitOrDefault (Some 8)) = 8
   \<and> (\<exists>out w'. handler noDates (worldOf fiveSeenDb (dayStart 1000 + 5000)) \<lparr>limit = Some 8, qp_cursor = None\<rparr>
                  (Some ''alice'') = Inr (out, w')
         \<and> length (itemsFrom ''ann'' (feed out)) = 5
         \<and> length (itemsFrom ''ben'' (feed out)) = 3)"
proof -
  let ?w = "worldOf fiveSeenDb (dayStart 1000 + 5000)"
  let ?p = "\<lparr>limit = Some 8, qp_cursor = None\<rparr>"
  let ?ann = "follows ''alice'' ''ann'' 10"
  let ?ben = "follows ''alice'' ''ben'' 3"
  define pvt where "pvt = viewsOn (db ?w) ''alice'' (isoDate (clock ?w (Suc (clock_reads ?w))))"
  define up where "up = fst (getOrCreateUserPreferences ?w ''alice'')"
  have n: "''alice'' \<noteq> []" by simp
  have fs: "getUserFollowees ?w ''alice'' = [?ben, ?ann]"
    by (simp add: getUserFollowees_def worldOf_def fiveSeenDb_def priorityDb_def emptyDb_def follows_def)
  have srt: "sortBy (\<lambda>a b. mahoot_number b - mahoot_number a) (getUserFollowees ?w ''alice'') = [?ann, ?ben]"
    by (simp add: fs sortBy_def follows_def)
  have fd: "followee_did ?ann = ''ann''" "followee_did ?ben = ''ben''"
    by (simp_all add: follows_def)
  have ne: "followee_did ?ann \<noteq> followee_did ?ben"
    by (simp add: fd)
  have pk: "distinct (map uri (post (db ?w)))"
    by (simp add: worldOf_def fiveSeenDb_def priorityDb_def emptyDb_def postNamed_def)
  have day: "isoDate (clock ?w (Suc (clock_reads ?w))) = 1000"
    by (simp add: worldOf_def isoDate_def dayStart_def msPerDay_def)
  have pv: "pvt = viewsOn fiveSeenDb ''alice'' 1000"
    unfolding pvt_def day by (simp add: worldOf_def)
  have seen: "length pvt = 5" "length (filter (\<lambda>x. ps_author_did x = ''ann'') pvt) = 5"
    "length (filter (\<lambda>x. ps_author_did x = ''ben'') pvt) = 0"
    by (simp_all add: pv viewsOn_def fiveSeenDb_def priorityDb_def emptyDb_def viewOf_def postNamed_def
        dayStart_def dayLastMs_def msPerDay_def)
  have l: "daily_post_limit up = 300"
    by (simp add: up_def getOrCreateUserPreferences_def new_Date_def worldOf_def fiveSeenDb_def
        priorityDb_def emptyDb_def Let_def)
  have budget: "int (length pvt) < daily_post_limit up"
    by (simp add: l seen)
  have pts: "(8::int) = min (daily_post_limit up - int (length pvt)) (limitOrDefault (limit ?p))"
    by (simp add: l seen limitOrDefault_def)
  have a1: "(5::int) = min (allowance pvt ?ann) 8"
    by (simp add: allowance_def follows_def seen)
  have a2: "(3::int) = min (allowance pvt ?ben) (8 - max 0 5)"
    by (simp add: allowance_def follows_def seen)
  have un: "length (unviewedBy fiveSeenDb ''alice'' ''ann'') = 8"
    "length (unviewedBy fiveSeenDb ''alice'' ''ben'') = 5"
    by (simp_all add: unviewedBy_def fiveSeenDb_def priorityDb_def emptyDb_def viewOf_def postNamed_def)
  have s1: "5 \<le> int (length (unviewedBy (db ?w) ''alice'' (followee_did ?ann)))"
    by (simp add: fd worldOf_def un)
  have s2: "3 \<le> int (length (unviewedBy (db ?w) ''alice'' (followee_did ?ben)))"
    by (simp add: fd worldOf_def un)
  obtain out w' where h:
    "handler noDates ?w ?p (Some ''alice'') = Inr (out, w')"
    "int (length (itemsFrom (followee_did ?ann) (feed out))) = max 0 5"
    "int (length (itemsFrom (followee_did ?ben) (feed out))) = max 0 3"
    using handler_two_followees [OF n srt ne pk up_def pvt_def budget pts a1 a2 s1 s2, of noDates]
    by blast
  have cap: "min (daily_post_limit (fst (getOrCreateUserPreferences ?w ''alice''))
                    - int (length (viewsOn fiveSeenDb ''alice'' 1000))) (limitOrDefault (Some 8)) = 8"
    using pts by (simp add: up_def pv)
  from h have "length (itemsFrom ''ann'' (feed out)) = 5" "length (itemsFrom ''ben'' (feed out)) = 3"
    by (simp_all add: fd)
  with h(1) fs un cap show ?thesis
    by blast
qed

end
